theory Spec2Isabelle
  imports Complex_Main "HOL-Library.Char_ord" "HOL-Library.List_Lexorder" "HOL-Library.Multiset"
begin

section \<open>Python values used by the clinic service\<close>

text \<open>
  The service is written in Python (\<^verbatim>\<open>affiliates.py\<close>, \<^verbatim>\<open>clinical.py\<close>). A Python \<^verbatim>\<open>str\<close> is
  modelled as a \<^typ>\<open>string\<close>: one \<^typ>\<open>char\<close> stands for one code point below 256, and
  strings are compared by code point, first difference first, a proper prefix being
  smaller (the order of \<^verbatim>\<open>HOL-Library.List_Lexorder\<close> over \<^verbatim>\<open>Char_ord\<close>). Code points from
  256 on are outside the model. Python integers are \<^typ>\<open>int\<close>; counts and calendar
  fields, which never go below zero, are \<^typ>\<open>nat\<close>.

  Every function of the service returns one of a fixed set of message strings; the
  model returns the same strings. An exception that escapes a function is a value of
  \<open>py_error\<close> on the left of a sum.
\<close>

datatype py_error = ValueError | TypeError

subsection \<open>\<^verbatim>\<open>str.strip\<close>, \<^verbatim>\<open>str.lower\<close>\<close>

text \<open>
  \<^verbatim>\<open>str.isspace\<close> below 256 holds of the code points 9 to 13, 28 to 32, 133 and 160;
  \<^verbatim>\<open>s.strip()\<close> removes them from both ends.
\<close>

definition isspace :: "char \<Rightarrow> bool" where
  "isspace c = (of_char c \<in> {9, 10, 11, 12, 13, 28, 29, 30, 31, 32, 133, 160 :: nat})"

definition strip :: "string \<Rightarrow> string" where
  "strip s = rev (dropWhile isspace (rev (dropWhile isspace s)))"

text \<open>\<^verbatim>\<open>not s.strip()\<close>: the stripped string is empty.\<close>

definition blank :: "string \<Rightarrow> bool" where
  "blank s = (strip s = [])"

text \<open>
  \<^verbatim>\<open>str.lower\<close> below 256 adds 32 to the code points of \<^verbatim>\<open>A\<close> to \<^verbatim>\<open>Z\<close> (65 to 90) and to
  the capital letters 192 to 222 other than the multiplication sign 215; it never
  changes the length there.
\<close>

definition lower_char :: "char \<Rightarrow> char" where
  "lower_char c =
     (let n = (of_char c :: nat)
      in if (65 \<le> n \<and> n \<le> 90) \<or> (192 \<le> n \<and> n \<le> 222 \<and> n \<noteq> 215)
         then char_of (n + 32) else c)"

definition lower :: "string \<Rightarrow> string" where
  "lower s = map lower_char s"

subsection \<open>Decimal digits\<close>

definition is_digit :: "char \<Rightarrow> bool" where
  "is_digit c = (48 \<le> (of_char c :: nat) \<and> (of_char c :: nat) \<le> 57)"

definition digit_val :: "char \<Rightarrow> nat" where
  "digit_val c = of_char c - 48"

subsection \<open>\<^verbatim>\<open>datetime.strptime\<close> with the two formats the service uses\<close>

text \<open>
  \<^verbatim>\<open>datetime.strptime(s, "%d/%m/%Y").date()\<close> is library code. The library turns the
  format into the regular expression
  \<^verbatim>\<open>(3[0-1]|[1-2]\d|0[1-9]|[1-9]| [1-9])/(1[0-2]|0[1-9]|[1-9])/(\d\d\d\d)\<close>,
  matches it at the start of the string, raises \<^verbatim>\<open>ValueError\<close> when it does not match or
  when text remains after the match, and then builds the date, which raises
  \<^verbatim>\<open>ValueError\<close> for year 0 and for a day the month does not have. The day and the month
  hold no \<^verbatim>\<open>/\<close>, so they are the text before the first and the second \<^verbatim>\<open>/\<close>.
  \<open>None\<close> stands for the \<^verbatim>\<open>ValueError\<close>.
\<close>

record date =
  year :: nat
  month :: nat
  day :: nat

fun parse_day :: "string \<Rightarrow> nat option" where
  "parse_day [a] = (if is_digit a \<and> a \<noteq> CHR ''0'' then Some (digit_val a) else None)"
| "parse_day [a, b] =
     (if a = CHR '' '' then (if is_digit b \<and> b \<noteq> CHR ''0'' then Some (digit_val b) else None)
      else if is_digit a \<and> is_digit b \<and> 1 \<le> 10 * digit_val a + digit_val b
              \<and> 10 * digit_val a + digit_val b \<le> 31
      then Some (10 * digit_val a + digit_val b) else None)"
| "parse_day _ = None"

fun parse_month :: "string \<Rightarrow> nat option" where
  "parse_month [a] = (if is_digit a \<and> a \<noteq> CHR ''0'' then Some (digit_val a) else None)"
| "parse_month [a, b] =
     (if is_digit a \<and> is_digit b \<and> 1 \<le> 10 * digit_val a + digit_val b
         \<and> 10 * digit_val a + digit_val b \<le> 12
      then Some (10 * digit_val a + digit_val b) else None)"
| "parse_month _ = None"

fun parse_year :: "string \<Rightarrow> nat option" where
  "parse_year [a, b, c, d] =
     (if is_digit a \<and> is_digit b \<and> is_digit c \<and> is_digit d
      then Some (1000 * digit_val a + 100 * digit_val b + 10 * digit_val c + digit_val d)
      else None)"
| "parse_year _ = None"

definition is_leap :: "nat \<Rightarrow> bool" where
  "is_leap y = (y mod 4 = 0 \<and> (y mod 100 \<noteq> 0 \<or> y mod 400 = 0))"

definition days_in_month :: "nat \<Rightarrow> nat \<Rightarrow> nat" where
  "days_in_month y m =
     (if m = 2 \<and> is_leap y then 29
      else [31, 28, 31, 30, 31, 30, 31, 31, 30, 31, 30, 31] ! (m - 1))"

text \<open>\<^verbatim>\<open>datetime.date(y, m, d)\<close>: the constructor's range checks.\<close>

definition make_date :: "nat \<Rightarrow> nat \<Rightarrow> nat \<Rightarrow> date option" where
  "make_date y m d =
     (if 1 \<le> y \<and> y \<le> 9999 \<and> 1 \<le> m \<and> m \<le> 12 \<and> 1 \<le> d \<and> d \<le> days_in_month y m
      then Some \<lparr>year = y, month = m, day = d\<rparr> else None)"

definition split_at :: "char \<Rightarrow> string \<Rightarrow> (string \<times> string) option" where
  "split_at sep s =
     (case dropWhile (\<lambda>c. c \<noteq> sep) s of
        [] \<Rightarrow> None
      | _ # rest \<Rightarrow> Some (takeWhile (\<lambda>c. c \<noteq> sep) s, rest))"

definition strptime_date :: "string \<Rightarrow> date option" where
  "strptime_date s =
     (case split_at (CHR ''/'') s of
        None \<Rightarrow> None
      | Some (ds, r) \<Rightarrow>
          (case split_at (CHR ''/'') r of
             None \<Rightarrow> None
           | Some (ms, ys) \<Rightarrow>
               (case parse_day ds of
                  None \<Rightarrow> None
                | Some d \<Rightarrow>
                    (case parse_month ms of
                       None \<Rightarrow> None
                     | Some m \<Rightarrow>
                         (case parse_year ys of
                            None \<Rightarrow> None
                          | Some y \<Rightarrow> make_date y m d)))))"

text \<open>
  \<^verbatim>\<open>datetime.strptime(s, "%H:%M").time()\<close>: the regular expression is
  \<^verbatim>\<open>(2[0-3]|[0-1]\d|\d):([0-5]\d|\d)\<close>, and nothing may follow the match.
\<close>

record time =
  hour :: nat
  minute :: nat

fun parse_hour :: "string \<Rightarrow> nat option" where
  "parse_hour [a] = (if is_digit a then Some (digit_val a) else None)"
| "parse_hour [a, b] =
     (if is_digit a \<and> is_digit b \<and> 10 * digit_val a + digit_val b \<le> 23
      then Some (10 * digit_val a + digit_val b) else None)"
| "parse_hour _ = None"

fun parse_minute :: "string \<Rightarrow> nat option" where
  "parse_minute [a] = (if is_digit a then Some (digit_val a) else None)"
| "parse_minute [a, b] =
     (if is_digit a \<and> is_digit b \<and> digit_val a \<le> 5
      then Some (10 * digit_val a + digit_val b) else None)"
| "parse_minute _ = None"

definition strptime_time :: "string \<Rightarrow> time option" where
  "strptime_time s =
     (case split_at (CHR '':'') s of
        None \<Rightarrow> None
      | Some (hs, ms) \<Rightarrow>
          (case parse_hour hs of
             None \<Rightarrow> None
           | Some h \<Rightarrow>
               (case parse_minute ms of
                  None \<Rightarrow> None
                | Some m \<Rightarrow> Some \<lparr>hour = h, minute = m\<rparr>)))"

text \<open>
  \<^verbatim>\<open>date.weekday()\<close> is \<^verbatim>\<open>(self.toordinal() + 6) % 7\<close>, Monday being 0 and Sunday 6; the
  ordinal counts the days from 1 January of year 1, as the library computes it.
\<close>

definition days_before_year :: "nat \<Rightarrow> nat" where
  "days_before_year y = (y - 1) * 365 + (y - 1) div 4 - (y - 1) div 100 + (y - 1) div 400"

definition days_before_month :: "nat \<Rightarrow> nat \<Rightarrow> nat" where
  "days_before_month y m = sum_list (map (days_in_month y) [1..<m])"

definition toordinal :: "date \<Rightarrow> nat" where
  "toordinal f = days_before_year (year f) + days_before_month (year f) (month f) + day f"

definition weekday :: "date \<Rightarrow> nat" where
  "weekday f = (toordinal f + 6) mod 7"

text \<open>Times are compared as Python compares them: hour first, then minute.\<close>

definition time_le :: "time \<Rightarrow> time \<Rightarrow> bool" where
  "time_le a b = (hour a < hour b \<or> (hour a = hour b \<and> minute a \<le> minute b))"

section \<open>\<^verbatim>\<open>clinical.py\<close>: slots\<close>

text \<open>
  \<^verbatim>\<open>_valid_slot(date_str, time_str)\<close>: both strings are parsed inside one \<^verbatim>\<open>try\<close>; a
  \<^verbatim>\<open>ValueError\<close> of either gives \<^verbatim>\<open>"invalid data"\<close>. The bounds \<^verbatim>\<open>08:00\<close> and \<^verbatim>\<open>16:00\<close>
  are themselves parsed with \<^verbatim>\<open>strptime\<close> in the source.
\<close>

definition valid_slot :: "string \<Rightarrow> string \<Rightarrow> string" where
  "valid_slot date_str time_str =
     (case strptime_date date_str of
        None \<Rightarrow> ''invalid data''
      | Some fecha \<Rightarrow>
          (case strptime_time time_str of
             None \<Rightarrow> ''invalid data''
           | Some hora \<Rightarrow>
               if weekday fecha > 4 then ''out of range''
               else if \<not> (time_le \<lparr>hour = 8, minute = 0\<rparr> hora
                          \<and> time_le hora \<lparr>hour = 16, minute = 0\<rparr>)
               then ''out of range''
               else if minute hora \<notin> {0, 30} then ''out of range''
               else ''ok''))"

section \<open>\<^verbatim>\<open>int\<close> and \<^verbatim>\<open>str\<close> on appointment ids\<close>

text \<open>
  \<^verbatim>\<open>int(s)\<close> of a string, base 10, as the interpreter reads it below 256: white space is
  removed from both ends (the code points 9 to 13, 32, 133 and 160; unlike
  \<^verbatim>\<open>str.strip\<close>, not 28 to 31), one sign may come first, and the rest is decimal digits,
  where single underscores may stand between two digits. Anything else raises
  \<^verbatim>\<open>ValueError\<close> (\<open>None\<close>). \<^verbatim>\<open>str(n)\<close> writes an integer in decimal, with no leading
  zero and a minus sign when negative. The interpreter's configurable limit on the
  length of such conversions (4300 digits by default) is not modelled.
\<close>

definition int_space :: "char \<Rightarrow> bool" where
  "int_space c = (of_char c \<in> {9, 10, 11, 12, 13, 32, 133, 160 :: nat})"

fun parse_digits :: "nat \<Rightarrow> string \<Rightarrow> nat option" where
  "parse_digits acc [] = Some acc"
| "parse_digits acc (c # cs) =
     (if is_digit c then parse_digits (acc * 10 + digit_val c) cs
      else if c = CHR ''_'' then
        (case cs of
           [] \<Rightarrow> None
         | d # ds \<Rightarrow> if is_digit d then parse_digits acc cs else None)
      else None)"

definition py_nat :: "string \<Rightarrow> nat option" where
  "py_nat s =
     (case s of
        [] \<Rightarrow> None
      | c # cs \<Rightarrow> if is_digit c then parse_digits 0 s else None)"

definition py_int :: "string \<Rightarrow> int option" where
  "py_int s =
     (case rev (dropWhile int_space (rev (dropWhile int_space s))) of
        [] \<Rightarrow> None
      | c # cs \<Rightarrow>
          if c = CHR ''+'' then map_option int (py_nat cs)
          else if c = CHR ''-'' then map_option (\<lambda>n. - int n) (py_nat cs)
          else map_option int (py_nat (c # cs)))"

definition digit_char :: "nat \<Rightarrow> char" where
  "digit_char d = char_of (48 + d)"

fun digits_of :: "nat \<Rightarrow> string" where
  "digits_of n = (if n < 10 then [digit_char n] else digits_of (n div 10) @ [digit_char (n mod 10)])"

declare digits_of.simps [simp del]

definition py_str :: "int \<Rightarrow> string" where
  "py_str i = (if i < 0 then CHR ''-'' # digits_of (nat (- i)) else digits_of (nat i))"

section \<open>The stores\<close>

text \<open>
  The service keeps each collection in a file, reads the whole file at the start of
  an operation and rewrites the whole file after a change. The model passes the
  collection in and returns the collection the file holds afterwards; an operation
  that returns before it writes returns the collection it was given.

  A user record has the keys \<^verbatim>\<open>name\<close>, \<^verbatim>\<open>password\<close>, \<^verbatim>\<open>role\<close> and, optionally,
  \<^verbatim>\<open>session\<close>; an appointment has \<^verbatim>\<open>id\<close>, \<^verbatim>\<open>patient\<close>, \<^verbatim>\<open>doctor\<close>, \<^verbatim>\<open>date\<close>, \<^verbatim>\<open>time\<close> and
  \<^verbatim>\<open>status\<close>; an affiliate row has \<^verbatim>\<open>id\<close>, \<^verbatim>\<open>names\<close>, \<^verbatim>\<open>surnames\<close>, \<^verbatim>\<open>birth\<close>, \<^verbatim>\<open>plan\<close>,
  \<^verbatim>\<open>gender\<close> and \<^verbatim>\<open>email\<close>. The fields carry a prefix because several records share a
  key. Records that lack a key, or hold a value that is not a string, are outside the
  model, but for the rows that \<^verbatim>\<open>stats\<close> reads (see \<open>csv_row\<close> below).
\<close>

record user =
  user_name :: string
  user_password :: string
  user_role :: string
  user_session :: "bool option"

record appointment =
  appt_id :: string
  appt_patient :: string
  appt_doctor :: string
  appt_date :: string
  appt_time :: string
  appt_status :: string

record affiliate =
  aff_id :: string
  aff_names :: string
  aff_surnames :: string
  aff_birth :: string
  aff_plan :: string
  aff_gender :: string
  aff_email :: string

section \<open>\<^verbatim>\<open>affiliates.py\<close>: users\<close>

text \<open>\<^verbatim>\<open>_find_user(lista, nombre)\<close>: the first user of that name. \<^verbatim>\<open>findUser\<close> applies it to
  the users file.\<close>

fun find_user :: "user list \<Rightarrow> string \<Rightarrow> user option" where
  "find_user [] nombre = None"
| "find_user (u # lista) nombre = (if user_name u = nombre then Some u else find_user lista nombre)"

text \<open>
  The test both clinical operations run on the requesting user:
  \<^verbatim>\<open>not patient or patient.get("password") != patient_password or not patient.get("session", False)\<close>.
  \<open>logged_in\<close> is its negation.
\<close>

definition logged_in :: "user list \<Rightarrow> string \<Rightarrow> string \<Rightarrow> bool" where
  "logged_in users nombre password =
     (case find_user users nombre of
        None \<Rightarrow> False
      | Some u \<Rightarrow> user_password u = password \<and> user_session u = Some True)"

section \<open>\<^verbatim>\<open>clinical.py\<close>: appointments\<close>

text \<open>
  \<^verbatim>\<open>_next_id(rows)\<close>: \<^verbatim>\<open>"1"\<close> for no rows, else the largest \<^verbatim>\<open>int(id)\<close> plus one, as a
  string. \<^verbatim>\<open>int\<close> raises \<^verbatim>\<open>ValueError\<close> on the first id that is not a number.
\<close>

fun row_ids :: "appointment list \<Rightarrow> int list option" where
  "row_ids [] = Some []"
| "row_ids (r # rows) =
     (case py_int (appt_id r) of
        None \<Rightarrow> None
      | Some i \<Rightarrow> (case row_ids rows of None \<Rightarrow> None | Some is \<Rightarrow> Some (i # is)))"

definition next_id :: "appointment list \<Rightarrow> py_error + string" where
  "next_id rows =
     (if rows = [] then Inr ''1''
      else (case row_ids rows of
              None \<Rightarrow> Inl ValueError
            | Some ids \<Rightarrow> Inr (py_str (fold max (tl ids) (hd ids) + 1))))"

text \<open>The collision test of \<^verbatim>\<open>scheduleAppointment\<close>, on one stored appointment.\<close>

definition occupies :: "string \<Rightarrow> string \<Rightarrow> string \<Rightarrow> appointment \<Rightarrow> bool" where
  "occupies doctor_name date_str time_str c =
     (appt_doctor c = doctor_name \<and> appt_date c = date_str \<and> appt_time c = time_str
      \<and> appt_status c = ''scheduled'')"

definition scheduleAppointment ::
  "user list \<Rightarrow> appointment list \<Rightarrow> string \<Rightarrow> string \<Rightarrow> string \<Rightarrow> string \<Rightarrow> string
   \<Rightarrow> py_error + (string \<times> appointment list)" where
  "scheduleAppointment users citas patient_name patient_password doctor_name date_str time_str =
     (if list_ex blank [patient_name, patient_password, doctor_name, date_str, time_str]
      then Inr (''invalid data'', citas)
      else (case find_user users doctor_name of
              None \<Rightarrow> Inr (''doctor not found'', citas)
            | Some doctor \<Rightarrow>
                if user_role doctor \<noteq> ''doctor'' then Inr (''doctor not found'', citas)
                else if \<not> logged_in users patient_name patient_password
                then Inr (''user not logged in'', citas)
                else (let estado_slot = valid_slot date_str time_str
                      in if estado_slot \<noteq> ''ok'' then Inr (estado_slot, citas)
                         else if list_ex (occupies doctor_name date_str time_str) citas
                         then Inr (''slot taken'', citas)
                         else (case next_id citas of
                                 Inl e \<Rightarrow> Inl e
                               | Inr nid \<Rightarrow>
                                   Inr (''ok'',
                                        citas @ [\<lparr>appt_id = nid, appt_patient = patient_name,
                                                  appt_doctor = doctor_name, appt_date = date_str,
                                                  appt_time = time_str,
                                                  appt_status = ''scheduled''\<rparr>])))))"

text \<open>
  The loop of \<^verbatim>\<open>cancelAppointment\<close>: the first appointment with that id, that patient
  and the status \<^verbatim>\<open>scheduled\<close> is set to \<^verbatim>\<open>cancelled\<close> and the loop stops. The result is
  \<^verbatim>\<open>cita_encontrada\<close> and the list after the loop.
\<close>

definition cancellable :: "string \<Rightarrow> string \<Rightarrow> appointment \<Rightarrow> bool" where
  "cancellable patient_name appointment_id c =
     (appt_id c = appointment_id \<and> appt_patient c = patient_name
      \<and> appt_status c = ''scheduled'')"

fun cancel_loop :: "string \<Rightarrow> string \<Rightarrow> appointment list \<Rightarrow> bool \<times> appointment list" where
  "cancel_loop patient_name appointment_id [] = (False, [])"
| "cancel_loop patient_name appointment_id (c # citas) =
     (if cancellable patient_name appointment_id c
      then (True, c\<lparr>appt_status := ''cancelled''\<rparr> # citas)
      else (case cancel_loop patient_name appointment_id citas of
              (encontrada, citas') \<Rightarrow> (encontrada, c # citas')))"

text \<open>
  \<^verbatim>\<open>cancelAppointment\<close>. The id is passed through \<^verbatim>\<open>str\<close>, which leaves a string as it
  is; the model takes the id as a string.
\<close>

definition cancelAppointment ::
  "user list \<Rightarrow> appointment list \<Rightarrow> string \<Rightarrow> string \<Rightarrow> string \<Rightarrow> string \<times> appointment list" where
  "cancelAppointment users citas patient_name patient_password appointment_id =
     (if \<not> logged_in users patient_name patient_password then (''user not logged in'', citas)
      else (case cancel_loop patient_name appointment_id citas of
              (cita_encontrada, citas') \<Rightarrow>
                if \<not> cita_encontrada then (''not found'', citas) else (''ok'', citas')))"



section \<open>\<^verbatim>\<open>affiliates.py\<close>: affiliates\<close>

text \<open>\<^verbatim>\<open>convertir_fecha\<close> raises the \<^verbatim>\<open>ValueError\<close> of \<^verbatim>\<open>strptime\<close>; \<^verbatim>\<open>calcular_edad\<close> reads
  the clock (\<^verbatim>\<open>date.today()\<close>), which the model takes as the argument \<open>hoy\<close>.\<close>

definition convertir_fecha :: "string \<Rightarrow> date option" where
  "convertir_fecha cadena = strptime_date cadena"

definition calcular_edad :: "date \<Rightarrow> date \<Rightarrow> int" where
  "calcular_edad hoy fecha_nacimiento =
     int (year hoy) - int (year fecha_nacimiento)
     - (if month hoy < month fecha_nacimiento
           \<or> (month hoy = month fecha_nacimiento \<and> day hoy < day fecha_nacimiento)
        then 1 else 0)"

definition plan_valido :: "string \<Rightarrow> bool" where
  "plan_valido p = (p \<in> {''A'', ''B'', ''C''})"

definition genero_valido :: "string \<Rightarrow> bool" where
  "genero_valido g = (g \<in> {''M'', ''F'', ''X''})"

definition correo_valido :: "string \<Rightarrow> bool" where
  "correo_valido e = (CHR ''@'' \<in> set e \<and> CHR ''.'' \<in> set e)"

definition registerAffiliate ::
  "affiliate list \<Rightarrow> string \<Rightarrow> string \<Rightarrow> string \<Rightarrow> string \<Rightarrow> string \<Rightarrow> string \<Rightarrow> string
   \<Rightarrow> string \<times> affiliate list" where
  "registerAffiliate afiliados id_afiliado nombres apellidos nacimiento plan genero correo =
     (if list_ex blank [id_afiliado, nombres, apellidos, nacimiento, plan, genero, correo]
      then (''invalid data'', afiliados)
      else (case convertir_fecha nacimiento of
              None \<Rightarrow> (''invalid date format'', afiliados)
            | Some fecha \<Rightarrow>
                if \<not> plan_valido plan \<or> \<not> genero_valido genero \<or> \<not> correo_valido correo
                then (''invalid data'', afiliados)
                else if list_ex (\<lambda>af. aff_id af = id_afiliado) afiliados
                then (''id already exists'', afiliados)
                else (''ok'',
                      afiliados @ [\<lparr>aff_id = id_afiliado, aff_names = nombres,
                                     aff_surnames = apellidos, aff_birth = nacimiento,
                                     aff_plan = plan, aff_gender = genero,
                                     aff_email = correo\<rparr>])))"

text \<open>The affiliate files a sequence of registrations can produce from the empty file.\<close>

inductive registered :: "affiliate list \<Rightarrow> bool" where
  registered_empty: "registered []"
| registered_step:
    "registered afiliados \<Longrightarrow>
     registered (snd (registerAffiliate afiliados id_afiliado nombres apellidos nacimiento
                        plan genero correo))"

text \<open>
  \<^verbatim>\<open>listAffiliates\<close>: the bubble sort of the source, on indices. Pass \<open>i\<close> compares the
  neighbours at \<open>j\<close> and \<open>j + 1\<close> for \<open>j\<close> from 0 to \<open>n - i - 2\<close> and swaps them when the
  lowered surname on the left is greater; \<open>j + 1\<close> is always below \<open>n\<close>.
\<close>

definition surname_key :: "affiliate \<Rightarrow> string" where
  "surname_key af = lower (aff_surnames af)"

definition swap_step :: "nat \<Rightarrow> affiliate list \<Rightarrow> affiliate list" where
  "swap_step j afiliados =
     (if surname_key (afiliados ! j) > surname_key (afiliados ! (j + 1))
      then afiliados[j := afiliados ! (j + 1), j + 1 := afiliados ! j]
      else afiliados)"

definition bubble_pass :: "nat \<Rightarrow> nat \<Rightarrow> affiliate list \<Rightarrow> affiliate list" where
  "bubble_pass n i afiliados = fold swap_step [0..<n - i - 1] afiliados"

definition listAffiliates :: "affiliate list \<Rightarrow> affiliate list" where
  "listAffiliates afiliados =
     (let n = length afiliados in fold (bubble_pass n) [0..<n] afiliados)"

text \<open>
  \<^verbatim>\<open>stats\<close> is the one function here that is looked at on files the service did not
  write itself, so its rows are modelled as \<^verbatim>\<open>csv.DictReader\<close> yields them: every row has
  the seven keys of the header, and a line of the file with fewer fields has the value
  \<^verbatim>\<open>None\<close> (here \<open>None\<close>) under the keys it lacks. \<open>row_of\<close> is the row read back for an
  affiliate that \<^verbatim>\<open>registerAffiliate\<close> wrote.
\<close>

record csv_row =
  row_id :: "string option"
  row_names :: "string option"
  row_surnames :: "string option"
  row_birth :: "string option"
  row_plan :: "string option"
  row_gender :: "string option"
  row_email :: "string option"

definition row_of :: "affiliate \<Rightarrow> csv_row" where
  "row_of af =
     \<lparr>row_id = Some (aff_id af), row_names = Some (aff_names af),
      row_surnames = Some (aff_surnames af), row_birth = Some (aff_birth af),
      row_plan = Some (aff_plan af), row_gender = Some (aff_gender af),
      row_email = Some (aff_email af)\<rparr>"

text \<open>
  The body of the loop of \<^verbatim>\<open>stats\<close>. The dictionaries with the fixed keys are
  association lists. The plan is counted when it is a key (\<^verbatim>\<open>None\<close> is no key). Then,
  inside the \<^verbatim>\<open>try\<close>, \<^verbatim>\<open>convertir_fecha(af["birth"])\<close>: when the birth is \<^verbatim>\<open>None\<close>,
  \<^verbatim>\<open>strptime\<close> raises \<^verbatim>\<open>TypeError\<close>, which \<^verbatim>\<open>except (ValueError, KeyError)\<close> does not catch,
  so it leaves \<^verbatim>\<open>stats\<close>; when the birth does not parse, the \<^verbatim>\<open>ValueError\<close> is caught and
  the loop continues with the age collections as they are; otherwise the age is
  appended to \<^verbatim>\<open>todas_las_edades\<close> and after that, when the gender is a key, to that
  gender's list.
\<close>

definition stats_step ::
  "date \<Rightarrow> csv_row \<Rightarrow> (string \<times> nat) list \<times> (string \<times> int list) list \<times> int list
   \<Rightarrow> py_error + (string \<times> nat) list \<times> (string \<times> int list) list \<times> int list" where
  "stats_step hoy af acc =
     (case acc of (totales_plan, edades_por_genero, todas_las_edades) \<Rightarrow>
        (let totales_plan' =
               (case row_plan af of
                  None \<Rightarrow> totales_plan
                | Some p \<Rightarrow>
                    if p \<in> fst ` set totales_plan
                    then map (\<lambda>(k, v). if k = p then (k, v + 1) else (k, v)) totales_plan
                    else totales_plan)
         in case row_birth af of
              None \<Rightarrow> Inl TypeError
            | Some nacimiento \<Rightarrow>
                (case convertir_fecha nacimiento of
                   None \<Rightarrow> Inr (totales_plan', edades_por_genero, todas_las_edades)
                 | Some fecha \<Rightarrow>
                     (let edad = calcular_edad hoy fecha
                      in Inr (totales_plan',
                              (case row_gender af of
                                 None \<Rightarrow> edades_por_genero
                               | Some g \<Rightarrow>
                                   if g \<in> fst ` set edades_por_genero
                                   then map (\<lambda>(k, v). if k = g then (k, v @ [edad]) else (k, v))
                                          edades_por_genero
                                   else edades_por_genero),
                              todas_las_edades @ [edad])))))"

fun stats_loop ::
  "date \<Rightarrow> csv_row list \<Rightarrow> (string \<times> nat) list \<times> (string \<times> int list) list \<times> int list
   \<Rightarrow> py_error + (string \<times> nat) list \<times> (string \<times> int list) list \<times> int list" where
  "stats_loop hoy [] acc = Inr acc"
| "stats_loop hoy (af # afiliados) acc =
     (case stats_step hoy af acc of
        Inl e \<Rightarrow> Inl e
      | Inr acc' \<Rightarrow> stats_loop hoy afiliados acc')"

definition py_min :: "int list \<Rightarrow> int" where
  "py_min xs = fold min (tl xs) (hd xs)"

definition py_max :: "int list \<Rightarrow> int" where
  "py_max xs = fold max (tl xs) (hd xs)"

text \<open>
  \<^verbatim>\<open>(sum(e) / len(e)) if e else 0.0\<close>. The source's value is a floating-point number, the
  double nearest to the quotient; the model has the quotient itself.
\<close>

definition promedio :: "int list \<Rightarrow> rat" where
  "promedio e = (if e = [] then 0 else of_int (sum_list e) / of_nat (length e))"

text \<open>
  \<^verbatim>\<open>stats\<close>. The result \<open>Inr None\<close> is the empty dictionary the source returns for an
  empty file; \<open>Inl\<close> is an exception that leaves the function.
\<close>

record aggregate =
  totales :: "(string \<times> nat) list"
  promedios_por_genero :: "(string \<times> rat) list"
  edad_minima :: int
  edad_maxima :: int

definition stats :: "date \<Rightarrow> csv_row list \<Rightarrow> py_error + aggregate option" where
  "stats hoy afiliados =
     (if afiliados = [] then Inr None
      else (case stats_loop hoy afiliados
                   ([(''A'', 0), (''B'', 0), (''C'', 0)], [(''M'', []), (''F'', []), (''X'', [])], [])
            of Inl e \<Rightarrow> Inl e
             | Inr (totales_plan, edades_por_genero, todas_las_edades) \<Rightarrow>
                 Inr (Some
                   \<lparr>totales = totales_plan,
                    promedios_por_genero = map (\<lambda>(g, e). (g, promedio e)) edades_por_genero,
                    edad_minima = (if todas_las_edades = [] then 0 else py_min todas_las_edades),
                    edad_maxima = (if todas_las_edades = [] then 0
                                   else py_max todas_las_edades)\<rparr>)))"

text \<open>The ages of the rows whose birth parses, in file order, whatever the gender.\<close>

definition parsed_ages :: "date \<Rightarrow> csv_row list \<Rightarrow> int list" where
  "parsed_ages hoy afiliados =
     map (calcular_edad hoy)
       (List.map_filter (\<lambda>af. Option.bind (row_birth af) convertir_fecha) afiliados)"

text \<open>
  For comparison, the ages as the specification describes them, and as the comment on
  the \<^verbatim>\<open>except\<close> clause of the source does: of the rows whose birth parses and whose
  gender is one of \<^verbatim>\<open>M\<close>, \<^verbatim>\<open>F\<close>, \<^verbatim>\<open>X\<close>.
\<close>

definition spec_ages :: "date \<Rightarrow> csv_row list \<Rightarrow> int list" where
  "spec_ages hoy afiliados =
     parsed_ages hoy
       (filter (\<lambda>af. case row_gender af of None \<Rightarrow> False | Some g \<Rightarrow> genero_valido g)
          afiliados)"

section \<open>Sample files\<close>

text \<open>Small files on which the properties below are evaluated.\<close>

definition ex_users :: "user list" where
  "ex_users =
     [\<lparr>user_name = ''ana'', user_password = ''clave'', user_role = ''patient'',
       user_session = Some True\<rparr>,
      \<lparr>user_name = ''luis'', user_password = ''1234'', user_role = ''patient'',
       user_session = Some True\<rparr>,
      \<lparr>user_name = ''eva'', user_password = ''abcd'', user_role = ''patient'',
       user_session = Some False\<rparr>,
      \<lparr>user_name = ''paz'', user_password = ''secreta'', user_role = ''doctor'',
       user_session = None\<rparr>,
      \<lparr>user_name = ''rojas'', user_password = ''xyz'', user_role = ''doctor'',
       user_session = Some False\<rparr>]"

definition ex_citas :: "appointment list" where
  "ex_citas =
     [\<lparr>appt_id = ''1'', appt_patient = ''ana'', appt_doctor = ''paz'',
       appt_date = ''18/03/2024'', appt_time = ''16:00'', appt_status = ''cancelled''\<rparr>,
      \<lparr>appt_id = ''2'', appt_patient = ''luis'', appt_doctor = ''paz'',
       appt_date = ''18/03/2024'', appt_time = ''16:00'', appt_status = ''scheduled''\<rparr>,
      \<lparr>appt_id = ''5'', appt_patient = ''ana'', appt_doctor = ''rojas'',
       appt_date = ''19/03/2024'', appt_time = ''08:30'', appt_status = ''scheduled''\<rparr>]"

definition ex_afiliados :: "affiliate list" where
  "ex_afiliados =
     [\<lparr>aff_id = ''1010'', aff_names = ''Ana'', aff_surnames = ''Zapata'',
       aff_birth = ''01/01/1990'', aff_plan = ''A'', aff_gender = ''F'',
       aff_email = ''ana@eps.co''\<rparr>,
      \<lparr>aff_id = ''2020'', aff_names = ''Luis'', aff_surnames = ''alvarez'',
       aff_birth = ''15/06/2010'', aff_plan = ''B'', aff_gender = ''Q'',
       aff_email = ''luis@eps.co''\<rparr>,
      \<lparr>aff_id = ''3030'', aff_names = ''Eva'', aff_surnames = ''ZAPATA'',
       aff_birth = ''1985-12-24'', aff_plan = ''A'', aff_gender = ''M'',
       aff_email = ''eva@eps.co''\<rparr>,
      \<lparr>aff_id = ''4040'', aff_names = ''Rita'', aff_surnames = ''Mora'',
       aff_birth = ''29/02/2000'', aff_plan = ''D'', aff_gender = ''X'',
       aff_email = ''rita@eps.co''\<rparr>]"

definition ex_hoy :: date where
  "ex_hoy = \<lparr>year = 2024, month = 6, day = 1\<rparr>"

text \<open>The row read from the line \<^verbatim>\<open>5050,Raul,Soto\<close>, which has three of the seven fields.\<close>

definition ex_short_row :: csv_row where
  "ex_short_row =
     \<lparr>row_id = Some ''5050'', row_names = Some ''Raul'', row_surnames = Some ''Soto'',
      row_birth = None, row_plan = None, row_gender = None, row_email = None\<rparr>"

section \<open>Properties\<close>

subsection \<open>Integers and their decimal strings\<close>

lemma is_digit_not_special:
  assumes "is_digit c"
  shows "\<not> int_space c" and "c \<noteq> CHR ''+''" and "c \<noteq> CHR ''-''" and "c \<noteq> CHR ''_''"
  using assms by (auto simp: is_digit_def int_space_def)

lemma digit_char_digit: "d < 10 \<Longrightarrow> is_digit (digit_char d)"
  by (simp add: is_digit_def digit_char_def)

lemma digit_char_val: "d < 10 \<Longrightarrow> digit_val (digit_char d) = d"
  by (simp add: digit_val_def digit_char_def)

lemma digits_of_all_digits: "\<forall>c\<in>set (digits_of n). is_digit c"
proof (induction n rule: digits_of.induct)
  case (1 n)
  show ?case
  proof (cases "n < 10")
    case True
    then show ?thesis by (simp add: digits_of.simps [of n] digit_char_digit)
  next
    case False
    with "1" show ?thesis by (simp add: digits_of.simps [of n] digit_char_digit)
  qed
qed

lemma digits_of_not_Nil: "digits_of n \<noteq> []"
  by (simp add: digits_of.simps [of n])

lemma parse_digits_snoc:
  "\<forall>c\<in>set xs. is_digit c \<Longrightarrow> is_digit d \<Longrightarrow>
   parse_digits acc (xs @ [d]) = map_option (\<lambda>v. v * 10 + digit_val d) (parse_digits acc xs)"
  by (induction xs arbitrary: acc) simp_all

lemma parse_digits_digits_of: "parse_digits 0 (digits_of n) = Some n"
proof (induction n rule: digits_of.induct)
  case (1 n)
  show ?case
  proof (cases "n < 10")
    case True
    then show ?thesis
      by (simp add: digits_of.simps [of n] digit_char_digit digit_char_val)
  next
    case False
    then have "parse_digits 0 (digits_of (n div 10)) = Some (n div 10)"
      using "1" by simp
    with False show ?thesis
      by (simp add: digits_of.simps [of n] parse_digits_snoc digits_of_all_digits
          digit_char_digit digit_char_val)
  qed
qed

lemma py_nat_digits_of: "py_nat (digits_of n) = Some n"
proof -
  obtain c cs where s: "digits_of n = c # cs"
    using digits_of_not_Nil [of n] by (cases "digits_of n") auto
  have "is_digit c" using digits_of_all_digits [of n] s by simp
  then show ?thesis
    using parse_digits_digits_of [of n] s by (simp add: py_nat_def)
qed

lemma strip_ends:
  "s \<noteq> [] \<Longrightarrow> \<not> P (hd s) \<Longrightarrow> \<not> P (last s) \<Longrightarrow> rev (dropWhile P (rev (dropWhile P s))) = s"
proof -
  assume ne: "s \<noteq> []" and h: "\<not> P (hd s)" and l: "\<not> P (last s)"
  have 1: "dropWhile P s = s" using ne h by (cases s) auto
  have hl: "hd (rev s) = last s" using ne by (simp add: hd_rev)
  have 2: "dropWhile P (rev s) = rev s"
  proof (cases "rev s")
    case Nil
    then show ?thesis by simp
  next
    case (Cons x xs)
    then have "x = last s" using hl by simp
    with l show ?thesis unfolding Cons by simp
  qed
  show ?thesis by (simp add: 1 2)
qed

lemma py_int_py_str: "py_int (py_str i) = Some i"
proof -
  let ?n = "if i < 0 then nat (- i) else nat i"
  obtain c cs where s: "digits_of ?n = c # cs"
    using digits_of_not_Nil [of ?n] by (cases "digits_of ?n") auto
  have dc: "is_digit c" using digits_of_all_digits [of ?n] s by simp
  have dl: "is_digit (last (c # cs))"
    using digits_of_all_digits [of ?n] s last_in_set [of "c # cs"] by auto
  show ?thesis
  proof (cases "i < 0")
    case True
    then have str: "py_str i = CHR ''-'' # c # cs" using s by (simp add: py_str_def)
    have "rev (dropWhile int_space (rev (dropWhile int_space (py_str i)))) = py_str i"
      unfolding str using dl is_digit_not_special(1) [OF dl]
      by (intro strip_ends) (auto simp: int_space_def)
    moreover have "py_nat (c # cs) = Some (nat (- i))"
      using py_nat_digits_of [of ?n] s True by simp
    ultimately show ?thesis using True by (simp add: py_int_def str)
  next
    case False
    then have str: "py_str i = c # cs" using s by (simp add: py_str_def)
    have "rev (dropWhile int_space (rev (dropWhile int_space (py_str i)))) = py_str i"
      unfolding str using is_digit_not_special(1) [OF dl] is_digit_not_special(1) [OF dc]
      by (intro strip_ends) auto
    moreover have "py_nat (c # cs) = Some (nat i)"
      using py_nat_digits_of [of ?n] s False by simp
    ultimately show ?thesis
      using False is_digit_not_special [OF dc] by (simp add: py_int_def str)
  qed
qed

subsection \<open>Slots\<close>

lemma digit_val_le: "is_digit c \<Longrightarrow> digit_val c \<le> 9"
  by (auto simp: is_digit_def digit_val_def)

lemma parse_minute_bound: "parse_minute ms = Some m \<Longrightarrow> m < 60"
proof (induction ms rule: parse_minute.induct)
  case (1 a)
  then show ?case using digit_val_le [of a] by (auto split: if_splits)
next
  case (2 a b)
  then show ?case using digit_val_le [of b] by (auto split: if_splits)
qed simp_all

lemma strptime_time_minute: "strptime_time s = Some hora \<Longrightarrow> minute hora < 60"
proof -
  assume "strptime_time s = Some hora"
  then obtain ms where "parse_minute ms = Some (minute hora)"
    by (auto simp: strptime_time_def split: option.splits)
  then show ?thesis by (rule parse_minute_bound)
qed

lemma weekday_lt_7: "weekday fecha < 7"
  by (simp add: weekday_def)

lemma business_hours:
  assumes "minute hora < 60"
  shows "(time_le \<lparr>hour = 8, minute = 0\<rparr> hora \<and> time_le hora \<lparr>hour = 16, minute = 0\<rparr>)
         \<longleftrightarrow> (480 \<le> 60 * hour hora + minute hora \<and> 60 * hour hora + minute hora \<le> 960)"
  using assms by (auto simp: time_le_def)

lemmas slot_eval = valid_slot_def strptime_date_def strptime_time_def split_at_def make_date_def
  days_in_month_def is_leap_def weekday_def toordinal_def days_before_year_def
  days_before_month_def time_le_def is_digit_def digit_val_def upt_conv_Cons

lemma valid_slot_general:
  "valid_slot date_str time_str =
     (case strptime_date date_str of
        None \<Rightarrow> ''invalid data''
      | Some fecha \<Rightarrow>
          (case strptime_time time_str of
             None \<Rightarrow> ''invalid data''
           | Some hora \<Rightarrow>
               if weekday fecha = 5 \<or> weekday fecha = 6
                  \<or> 60 * hour hora + minute hora < 480 \<or> 960 < 60 * hour hora + minute hora
                  \<or> (minute hora \<noteq> 0 \<and> minute hora \<noteq> 30)
               then ''out of range'' else ''ok''))"
proof (cases "strptime_date date_str")
  case None
  then show ?thesis by (simp add: valid_slot_def)
next
  case (Some fecha)
  note f = this
  show ?thesis
  proof (cases "strptime_time time_str")
    case None
    then show ?thesis by (simp add: valid_slot_def f)
  next
    case (Some hora)
    have w: "weekday fecha > 4 \<longleftrightarrow> weekday fecha = 5 \<or> weekday fecha = 6"
      using weekday_lt_7 [of fecha] by auto
    have b: "(time_le \<lparr>hour = 8, minute = 0\<rparr> hora \<and> time_le hora \<lparr>hour = 16, minute = 0\<rparr>)
         \<longleftrightarrow> (480 \<le> 60 * hour hora + minute hora \<and> 60 * hour hora + minute hora \<le> 960)"
      using business_hours strptime_time_minute [OF Some] by blast
    show ?thesis
      unfolding valid_slot_def f Some option.case w b by auto
  qed
qed

text \<open>
  C6. \<^verbatim>\<open>_valid_slot\<close> returns \<^verbatim>\<open>"invalid data"\<close>, its result for a parse failure, when the date
  is not a calendar date in the form day/month/year or the time is not in the form
  hour:minute, as \<^verbatim>\<open>strptime\<close> reads them. When both parse it returns \<^verbatim>\<open>"out of range"\<close> if
  the day is a Saturday or a Sunday (weekday 5 or 6), or the time is before 08:00 or
  after 16:00, or the minute is neither 0 nor 30, and \<^verbatim>\<open>"ok"\<close> otherwise. The four
  examples of the specification have the results it lists.
\<close>

theorem valid_slot_cases:
  "valid_slot date_str time_str =
     (case strptime_date date_str of
        None \<Rightarrow> ''invalid data''
      | Some fecha \<Rightarrow>
          (case strptime_time time_str of
             None \<Rightarrow> ''invalid data''
           | Some hora \<Rightarrow>
               if weekday fecha = 5 \<or> weekday fecha = 6
                  \<or> 60 * hour hora + minute hora < 480 \<or> 960 < 60 * hour hora + minute hora
                  \<or> (minute hora \<noteq> 0 \<and> minute hora \<noteq> 30)
               then ''out of range'' else ''ok''))
   \<and> valid_slot ''15/03/2024'' ''08:00'' = ''ok''
   \<and> valid_slot ''16/03/2024'' ''08:00'' = ''out of range''
   \<and> valid_slot ''15/03/2024'' ''08:15'' = ''out of range''
   \<and> valid_slot ''31/02/2024'' ''08:00'' = ''invalid data''"
proof -
  have 1: "valid_slot ''15/03/2024'' ''08:00'' = ''ok''" by (simp add: slot_eval)
  have 2: "valid_slot ''16/03/2024'' ''08:00'' = ''out of range''" by (simp add: slot_eval)
  have 3: "valid_slot ''15/03/2024'' ''08:15'' = ''out of range''" by (simp add: slot_eval)
  have 4: "valid_slot ''31/02/2024'' ''08:00'' = ''invalid data''" by (simp add: slot_eval)
  show ?thesis using valid_slot_general [of date_str time_str] 1 2 3 4 by blast
qed

theorem valid_slot_cases_witness:
  "strptime_date ''18/03/2024'' = Some \<lparr>year = 2024, month = 3, day = 18\<rparr>
   \<and> strptime_time ''16:00'' = Some \<lparr>hour = 16, minute = 0\<rparr>
   \<and> weekday \<lparr>year = 2024, month = 3, day = 18\<rparr> = 0
   \<and> valid_slot ''18/03/2024'' ''16:00'' = ''ok''
   \<and> valid_slot ''17/03/2024'' ''16:00'' = ''out of range''
   \<and> valid_slot ''18/03/2024'' ''16:30'' = ''out of range''
   \<and> valid_slot ''18/03/2024'' ''7:30'' = ''out of range''
   \<and> valid_slot ''18-03-2024'' ''16:00'' = ''invalid data''
   \<and> valid_slot ''18/03/2024'' ''16h'' = ''invalid data''"
proof -
  have d: "strptime_date ''18/03/2024'' = Some \<lparr>year = 2024, month = 3, day = 18\<rparr>"
    by (simp add: slot_eval)
  have d2: "strptime_date ''17/03/2024'' = Some \<lparr>year = 2024, month = 3, day = 17\<rparr>"
    by (simp add: slot_eval)
  have d3: "strptime_date ''18-03-2024'' = None"
    by (simp add: slot_eval)
  have t: "strptime_time ''16:00'' = Some \<lparr>hour = 16, minute = 0\<rparr>"
    by (simp add: slot_eval)
  have t2: "strptime_time ''16:30'' = Some \<lparr>hour = 16, minute = 30\<rparr>"
    by (simp add: slot_eval)
  have t3: "strptime_time ''7:30'' = Some \<lparr>hour = 7, minute = 30\<rparr>"
    by (simp add: slot_eval)
  have t4: "strptime_time ''16h'' = None"
    by (simp add: slot_eval)
  have w: "weekday \<lparr>year = 2024, month = 3, day = 18\<rparr> = 0"
    by (simp add: slot_eval)
  have w2: "weekday \<lparr>year = 2024, month = 3, day = 17\<rparr> = 6"
    by (simp add: slot_eval)
  show ?thesis
    using valid_slot_cases [of "''18/03/2024''" "''16:00''", THEN conjunct1]
      valid_slot_cases [of "''17/03/2024''" "''16:00''", THEN conjunct1]
      valid_slot_cases [of "''18/03/2024''" "''16:30''", THEN conjunct1]
      valid_slot_cases [of "''18/03/2024''" "''7:30''", THEN conjunct1]
      valid_slot_cases [of "''18-03-2024''" "''16:00''", THEN conjunct1]
      valid_slot_cases [of "''18/03/2024''" "''16h''", THEN conjunct1]
    by (simp add: d d2 d3 t t2 t3 t4 w w2)
qed

subsection \<open>Users, ids and the checks of scheduling\<close>

lemma all_dropWhile: "(\<forall>x\<in>set (dropWhile P s). P x) \<longleftrightarrow> (\<forall>x\<in>set s. P x)"
  by (induction s) auto

lemma blank_iff: "blank s \<longleftrightarrow> (\<forall>c\<in>set s. isspace c)"
  by (simp add: blank_def strip_def dropWhile_eq_Nil_conv all_dropWhile)

lemma find_user_None: "find_user users n = None \<longleftrightarrow> (\<forall>u\<in>set users. user_name u \<noteq> n)"
  by (induction users) auto

lemma find_user_Some: "find_user users n = Some u \<Longrightarrow> u \<in> set users \<and> user_name u = n"
  by (induction users) (auto split: if_splits)

lemma logged_in_iff:
  "logged_in users n pw \<longleftrightarrow>
   (\<exists>u. find_user users n = Some u \<and> user_password u = pw \<and> user_session u = Some True)"
  by (auto simp: logged_in_def split: option.splits)

lemma row_ids_numeric:
  "\<forall>c\<in>set rows. py_int (appt_id c) \<noteq> None \<Longrightarrow>
   row_ids rows = Some (map (\<lambda>c. the (py_int (appt_id c))) rows)"
  by (induction rows) auto

lemma row_ids_None: "row_ids rows = None \<longleftrightarrow> (\<exists>c\<in>set rows. py_int (appt_id c) = None)"
  by (induction rows) (auto split: option.splits)

lemma fold_max_Max: "fold max (tl xs) (hd xs) = Max (set xs)" if "xs \<noteq> []" for xs :: "int list"
proof (cases xs)
  case Nil
  with that show ?thesis by simp
next
  case (Cons a list)
  show ?thesis unfolding Cons by (simp only: list.sel Max.set_eq_fold)
qed

lemma next_id_numeric:
  assumes "\<forall>c\<in>set rows. py_int (appt_id c) \<noteq> None"
  shows "next_id rows =
         Inr (if rows = [] then ''1''
              else py_str (Max ((\<lambda>c. the (py_int (appt_id c))) ` set rows) + 1))"
proof (cases "rows = []")
  case True
  then show ?thesis by (simp add: next_id_def)
next
  case False
  then have "map (\<lambda>c. the (py_int (appt_id c))) rows \<noteq> []" by simp
  from fold_max_Max [OF this] False show ?thesis
    by (simp add: next_id_def row_ids_numeric [OF assms])
qed

lemma next_id_non_numeric:
  "\<exists>c\<in>set rows. py_int (appt_id c) = None \<Longrightarrow> next_id rows = Inl ValueError"
  using row_ids_None [of rows] by (auto simp: next_id_def)

lemma list_ex_occupies:
  "list_ex (occupies d f t) citas \<longleftrightarrow>
   (\<exists>c\<in>set citas. appt_doctor c = d \<and> appt_date c = f \<and> appt_time c = t
                   \<and> appt_status c = ''scheduled'')"
  by (auto simp: list_ex_iff occupies_def)

lemma scheduleAppointment_unfold:
  "scheduleAppointment users citas p pw d f t =
     (if blank p \<or> blank pw \<or> blank d \<or> blank f \<or> blank t
      then Inr (''invalid data'', citas)
      else if (case find_user users d of None \<Rightarrow> True | Some u \<Rightarrow> user_role u \<noteq> ''doctor'')
      then Inr (''doctor not found'', citas)
      else if \<not> logged_in users p pw then Inr (''user not logged in'', citas)
      else if valid_slot f t \<noteq> ''ok'' then Inr (valid_slot f t, citas)
      else if list_ex (occupies d f t) citas then Inr (''slot taken'', citas)
      else (case next_id citas of
              Inl e \<Rightarrow> Inl e
            | Inr nid \<Rightarrow>
                Inr (''ok'',
                     citas @ [\<lparr>appt_id = nid, appt_patient = p, appt_doctor = d,
                               appt_date = f, appt_time = t,
                               appt_status = ''scheduled''\<rparr>])))"
  by (simp add: scheduleAppointment_def Let_def split: option.splits)

lemma not_logged_in_iff:
  "\<not> logged_in users p pw \<longleftrightarrow>
     (\<forall>u\<in>set users. user_name u \<noteq> p)
     \<or> (\<exists>u. find_user users p = Some u
            \<and> (user_password u \<noteq> pw \<or> user_session u \<noteq> Some True))"
  using find_user_None [of users p] by (cases "find_user users p") (auto simp: logged_in_def)

lemma not_doctor_iff:
  "(case find_user users d of None \<Rightarrow> True | Some u \<Rightarrow> user_role u \<noteq> ''doctor'')
   \<longleftrightarrow> (\<forall>u\<in>set users. user_name u \<noteq> d)
       \<or> (\<exists>u. find_user users d = Some u \<and> user_role u \<noteq> ''doctor'')"
  using find_user_None [of users d] by (cases "find_user users d") auto

lemma scheduleAppointment_general:
  assumes "\<forall>c\<in>set citas. py_int (appt_id c) \<noteq> None"
  shows "scheduleAppointment users citas p pw d f t =
     (if blank p \<or> blank pw \<or> blank d \<or> blank f \<or> blank t
      then Inr (''invalid data'', citas)
      else if (\<forall>u\<in>set users. user_name u \<noteq> d)
              \<or> (\<exists>u. find_user users d = Some u \<and> user_role u \<noteq> ''doctor'')
      then Inr (''doctor not found'', citas)
      else if (\<forall>u\<in>set users. user_name u \<noteq> p)
              \<or> (\<exists>u. find_user users p = Some u
                      \<and> (user_password u \<noteq> pw \<or> user_session u \<noteq> Some True))
      then Inr (''user not logged in'', citas)
      else if valid_slot f t \<noteq> ''ok'' then Inr (valid_slot f t, citas)
      else if (\<exists>c\<in>set citas. appt_doctor c = d \<and> appt_date c = f \<and> appt_time c = t
                               \<and> appt_status c = ''scheduled'')
      then Inr (''slot taken'', citas)
      else Inr (''ok'',
                citas @ [\<lparr>appt_id =
                            (if citas = [] then ''1''
                             else py_str (Max ((\<lambda>c. the (py_int (appt_id c))) ` set citas) + 1)),
                          appt_patient = p, appt_doctor = d, appt_date = f, appt_time = t,
                          appt_status = ''scheduled''\<rparr>]))"
  by (simp only: scheduleAppointment_unfold not_doctor_iff not_logged_in_iff list_ex_occupies
      next_id_numeric [OF assms] sum.case)

lemma ex_citas_numeric: "\<forall>c\<in>set ex_citas. py_int (appt_id c) \<noteq> None"
  by (simp add: ex_citas_def py_int_def py_nat_def int_space_def is_digit_def digit_val_def)

lemma ex_citas_ids:
  "(\<lambda>c. the (py_int (appt_id c))) ` set ex_citas = {1, 2, 5}"
  by (simp add: ex_citas_def py_int_def py_nat_def int_space_def is_digit_def digit_val_def)

lemma py_str_6: "py_str 6 = ''6''"
  by code_simp

lemma blank_examples:
  "blank '' ''" "\<not> blank ''ana''" "\<not> blank ''luis''" "\<not> blank ''clave''" "\<not> blank ''paz''"
  "\<not> blank ''rojas''" "\<not> blank ''18/03/2024''" "\<not> blank ''17/03/2024''" "\<not> blank ''16:00''"
  "\<not> blank ''olvido''"
  by (simp_all add: blank_def strip_def isspace_def)

subsection \<open>Cancelling\<close>

lemma list_ex_cancellable:
  "list_ex (cancellable p a) citas \<longleftrightarrow> (\<exists>c\<in>set citas. cancellable p a c)"
  by (simp add: list_ex_iff)

lemma cancel_loop_none:
  "\<forall>c\<in>set citas. \<not> cancellable p a c \<Longrightarrow> cancel_loop p a citas = (False, citas)"
  by (induction citas) auto

lemma cancel_loop_append:
  "\<forall>x\<in>set pre. \<not> cancellable p a x \<Longrightarrow>
   cancel_loop p a (pre @ rest) = (fst (cancel_loop p a rest), pre @ snd (cancel_loop p a rest))"
  by (induction pre) (auto split: prod.splits)

lemma cancel_loop_first:
  "\<exists>c\<in>set citas. cancellable p a c \<Longrightarrow>
   \<exists>pre c post. citas = pre @ c # post \<and> cancellable p a c
      \<and> (\<forall>x\<in>set pre. \<not> cancellable p a x)
      \<and> cancel_loop p a citas = (True, pre @ c\<lparr>appt_status := ''cancelled''\<rparr> # post)"
proof -
  assume "\<exists>c\<in>set citas. cancellable p a c"
  then obtain pre c post where
    sp: "citas = pre @ c # post" "cancellable p a c" "\<forall>x\<in>set pre. \<not> cancellable p a x"
    using split_list_first_prop [of citas "cancellable p a"] by blast
  have "cancel_loop p a citas = (True, pre @ c\<lparr>appt_status := ''cancelled''\<rparr> # post)"
    unfolding sp(1) using sp(2) by (simp add: cancel_loop_append [OF sp(3)])
  with sp show ?thesis by blast
qed

lemma cancelAppointment_general:
  assumes "logged_in users p pw"
  shows "(fst (cancelAppointment users citas p pw a) = ''not found''
            \<longleftrightarrow> \<not> (\<exists>c\<in>set citas. cancellable p a c))
     \<and> (fst (cancelAppointment users citas p pw a) = ''not found''
            \<longrightarrow> snd (cancelAppointment users citas p pw a) = citas)
     \<and> ((\<exists>c\<in>set citas. cancellable p a c) \<longrightarrow>
          (\<exists>pre c post. citas = pre @ c # post \<and> cancellable p a c
             \<and> (\<forall>x\<in>set pre. \<not> cancellable p a x)
             \<and> cancelAppointment users citas p pw a
                 = (''ok'', pre @ c\<lparr>appt_status := ''cancelled''\<rparr> # post)))"
proof (cases "\<exists>c\<in>set citas. cancellable p a c")
  case True
  from cancel_loop_first [OF True] obtain pre c post where
    sp: "citas = pre @ c # post" "cancellable p a c" "\<forall>x\<in>set pre. \<not> cancellable p a x"
      "cancel_loop p a citas = (True, pre @ c\<lparr>appt_status := ''cancelled''\<rparr> # post)"
    by blast
  have r: "cancelAppointment users citas p pw a
           = (''ok'', pre @ c\<lparr>appt_status := ''cancelled''\<rparr> # post)"
    using assms sp(4) by (simp add: cancelAppointment_def)
  have "fst (cancelAppointment users citas p pw a) \<noteq> ''not found''" by (simp add: r)
  with True sp r show ?thesis by blast
next
  case False
  then have "cancel_loop p a citas = (False, citas)" by (simp add: cancel_loop_none)
  then have "cancelAppointment users citas p pw a = (''not found'', citas)"
    using assms by (simp add: cancelAppointment_def)
  with False show ?thesis by simp
qed

text \<open>
  C7. For a patient who is logged in (the user exists, the password matches, the
  session flag is true), \<^verbatim>\<open>cancelAppointment\<close> returns \<^verbatim>\<open>"not found"\<close> exactly when no
  appointment has the given id, that patient and the status \<^verbatim>\<open>scheduled\<close>, and then the
  file is unchanged. When there is such an appointment, the first one in the file gets
  the status \<^verbatim>\<open>cancelled\<close>, every other appointment stays as it is, and the result is
  \<^verbatim>\<open>"ok"\<close>.
\<close>

theorem cancelAppointment_not_found:
  assumes "find_user users patient_name = Some u"
    and "user_password u = patient_password"
    and "user_session u = Some True"
  shows "(fst (cancelAppointment users citas patient_name patient_password appointment_id)
            = ''not found''
          \<longleftrightarrow> \<not> (\<exists>c\<in>set citas. appt_id c = appointment_id \<and> appt_patient c = patient_name
                                  \<and> appt_status c = ''scheduled''))
     \<and> (fst (cancelAppointment users citas patient_name patient_password appointment_id)
            = ''not found''
          \<longrightarrow> snd (cancelAppointment users citas patient_name patient_password appointment_id)
              = citas)
     \<and> ((\<exists>c\<in>set citas. appt_id c = appointment_id \<and> appt_patient c = patient_name
                         \<and> appt_status c = ''scheduled'') \<longrightarrow>
          (\<exists>pre c post. citas = pre @ c # post
             \<and> appt_id c = appointment_id \<and> appt_patient c = patient_name
             \<and> appt_status c = ''scheduled''
             \<and> (\<forall>x\<in>set pre. \<not> cancellable patient_name appointment_id x)
             \<and> cancelAppointment users citas patient_name patient_password appointment_id
                 = (''ok'', pre @ c\<lparr>appt_status := ''cancelled''\<rparr> # post)))"
proof -
  have "logged_in users patient_name patient_password"
    using assms by (simp add: logged_in_def)
  from cancelAppointment_general [OF this, of citas appointment_id]
  show ?thesis unfolding cancellable_def [of patient_name appointment_id] by simp
qed

theorem cancelAppointment_not_found_witness:
  "cancelAppointment ex_users ex_citas ''ana'' ''clave'' ''1'' = (''not found'', ex_citas)
   \<and> cancelAppointment ex_users ex_citas ''ana'' ''clave'' ''2'' = (''not found'', ex_citas)
   \<and> cancelAppointment ex_users ex_citas ''ana'' ''clave'' ''5''
       = (''ok'', butlast ex_citas @ [(last ex_citas)\<lparr>appt_status := ''cancelled''\<rparr>])
   \<and> fst (cancelAppointment ex_users ex_citas ''ana'' ''clave'' ''5'') \<noteq> ''not found''"
proof -
  let ?u = "\<lparr>user_name = ''ana'', user_password = ''clave'', user_role = ''patient'',
             user_session = Some True\<rparr>"
  have f: "find_user ex_users ''ana'' = Some ?u" by (simp add: ex_users_def)
  have pw: "user_password ?u = ''clave''" and se: "user_session ?u = Some True" by simp_all
  note th = cancelAppointment_not_found [OF f pw se, of ex_citas]
  have n1: "\<not> (\<exists>c\<in>set ex_citas. appt_id c = ''1'' \<and> appt_patient c = ''ana''
                                  \<and> appt_status c = ''scheduled'')"
    by (simp add: ex_citas_def)
  have n2: "\<not> (\<exists>c\<in>set ex_citas. appt_id c = ''2'' \<and> appt_patient c = ''ana''
                                  \<and> appt_status c = ''scheduled'')"
    by (simp add: ex_citas_def)
  have y5: "\<exists>c\<in>set ex_citas. appt_id c = ''5'' \<and> appt_patient c = ''ana''
                                  \<and> appt_status c = ''scheduled''"
    by (simp add: ex_citas_def)
  have 1: "cancelAppointment ex_users ex_citas ''ana'' ''clave'' ''1'' = (''not found'', ex_citas)"
    using th [of "''1''"] n1 by (simp add: prod_eq_iff)
  have 2: "cancelAppointment ex_users ex_citas ''ana'' ''clave'' ''2'' = (''not found'', ex_citas)"
    using th [of "''2''"] n2 by (simp add: prod_eq_iff)
  have 3: "fst (cancelAppointment ex_users ex_citas ''ana'' ''clave'' ''5'') \<noteq> ''not found''"
    using th [of "''5''"] y5 by blast
  have 4: "cancelAppointment ex_users ex_citas ''ana'' ''clave'' ''5''
       = (''ok'', butlast ex_citas @ [(last ex_citas)\<lparr>appt_status := ''cancelled''\<rparr>])"
    by (simp add: cancelAppointment_def logged_in_def f)
       (simp add: ex_citas_def cancellable_def)
  from 1 2 3 4 show ?thesis by blast
qed

subsection \<open>One scheduled appointment per slot\<close>






lemma cancelAppointment_result:
  "snd (cancelAppointment users citas p pw a) = citas
   \<or> (\<exists>pre c post. citas = pre @ c # post
        \<and> snd (cancelAppointment users citas p pw a)
            = pre @ c\<lparr>appt_status := ''cancelled''\<rparr> # post)"
proof (cases "logged_in users p pw")
  case True
  note g = cancelAppointment_general [OF True, of citas a]
  show ?thesis
  proof (cases "\<exists>c\<in>set citas. cancellable p a c")
    case True
    with g obtain pre c post where "citas = pre @ c # post"
      "cancelAppointment users citas p pw a
         = (''ok'', pre @ c\<lparr>appt_status := ''cancelled''\<rparr> # post)"
      by blast
    then have "citas = pre @ c # post
        \<and> snd (cancelAppointment users citas p pw a)
            = pre @ c\<lparr>appt_status := ''cancelled''\<rparr> # post"
      by simp
    then show ?thesis by blast
  next
    case False
    with g show ?thesis by blast
  qed
next
  case False
  then show ?thesis by (simp add: cancelAppointment_def)
qed





lemma next_id_fresh:
  assumes "\<forall>c\<in>set citas. py_int (appt_id c) \<noteq> None"
  shows "\<exists>nid. next_id citas = Inr nid \<and> py_int nid \<noteq> None \<and> (\<forall>c\<in>set citas. appt_id c \<noteq> nid)"
proof (cases "citas = []")
  case True
  have "py_int ''1'' \<noteq> None"
    by (simp add: py_int_def py_nat_def int_space_def is_digit_def digit_val_def)
  with True show ?thesis by (simp add: next_id_def)
next
  case False
  let ?g = "\<lambda>c. the (py_int (appt_id c))"
  let ?M = "Max (?g ` set citas)"
  have n: "next_id citas = Inr (py_str (?M + 1))"
    using next_id_numeric [OF assms] False by simp
  have "appt_id c \<noteq> py_str (?M + 1)" if c: "c \<in> set citas" for c
  proof
    assume "appt_id c = py_str (?M + 1)"
    then have "?g c = ?M + 1" by (simp add: py_int_py_str)
    moreover have "?g c \<le> ?M" using c by (intro Max_ge) auto
    ultimately show False by simp
  qed
  then show ?thesis using n by (simp add: py_int_py_str)
qed

lemma scheduleAppointment_ok_I:
  assumes "\<not> blank p" "\<not> blank pw" "\<not> blank d" "\<not> blank f" "\<not> blank t"
    and "find_user users d = Some u" "user_role u = ''doctor''"
    and "logged_in users p pw"
    and "valid_slot f t = ''ok''"
    and "\<not> list_ex (occupies d f t) citas"
    and "\<forall>c\<in>set citas. py_int (appt_id c) \<noteq> None"
  shows "\<exists>nid. py_int nid \<noteq> None \<and> (\<forall>c\<in>set citas. appt_id c \<noteq> nid)
           \<and> scheduleAppointment users citas p pw d f t
               = Inr (''ok'', citas @ [\<lparr>appt_id = nid, appt_patient = p, appt_doctor = d,
                                        appt_date = f, appt_time = t,
                                        appt_status = ''scheduled''\<rparr>])"
proof -
  from next_id_fresh [OF assms(11)] obtain nid where
    n: "next_id citas = Inr nid" "py_int nid \<noteq> None" "\<forall>c\<in>set citas. appt_id c \<noteq> nid"
    by blast
  have "scheduleAppointment users citas p pw d f t
               = Inr (''ok'', citas @ [\<lparr>appt_id = nid, appt_patient = p, appt_doctor = d,
                                        appt_date = f, appt_time = t,
                                        appt_status = ''scheduled''\<rparr>])"
    unfolding scheduleAppointment_unfold using assms(1-10) n(1) by simp
  with n show ?thesis by blast
qed



subsection \<open>The order of the checks\<close>

lemma scheduleAppointment_numeric:
  assumes "\<forall>c\<in>set citas. py_int (appt_id c) \<noteq> None"
    and "scheduleAppointment users citas p pw d f t = Inr (r, citas')"
  shows "\<forall>c\<in>set citas'. py_int (appt_id c) \<noteq> None"
proof -
  from next_id_fresh [OF assms(1)] obtain nid where
    n: "next_id citas = Inr nid" "py_int nid \<noteq> None" by blast
  from assms(2) have "citas' = citas
     \<or> citas' = citas @ [\<lparr>appt_id = nid, appt_patient = p, appt_doctor = d,
                           appt_date = f, appt_time = t, appt_status = ''scheduled''\<rparr>]"
    unfolding scheduleAppointment_unfold n(1) by (auto split: if_splits)
  then show ?thesis using assms(1) n(2) by auto
qed

lemma cancelAppointment_numeric:
  assumes "\<forall>c\<in>set citas. py_int (appt_id c) \<noteq> None"
  shows "\<forall>c\<in>set (snd (cancelAppointment users citas p pw a)). py_int (appt_id c) \<noteq> None"
  using cancelAppointment_result [of users citas p pw a] assms by auto

text \<open>
  C2. On a file whose ids are all numbers (as every id the service assigns is),
  \<^verbatim>\<open>scheduleAppointment\<close> returns the first of: \<^verbatim>\<open>"invalid data"\<close> when one of the five
  arguments is blank; \<^verbatim>\<open>"doctor not found"\<close> when no user has the doctor's name or the
  user found has another role; \<^verbatim>\<open>"user not logged in"\<close> when no user has the patient's
  name, or the password differs, or the session flag is not true; the result of
  \<^verbatim>\<open>_valid_slot\<close> when it is not \<^verbatim>\<open>"ok"\<close>; \<^verbatim>\<open>"slot taken"\<close> when a scheduled appointment
  has the same doctor, date and time. In these cases the file is unchanged. Otherwise
  it appends a scheduled appointment whose id is \<^verbatim>\<open>"1"\<close> for an empty file and the
  largest id plus one otherwise, and returns \<^verbatim>\<open>"ok"\<close>. With the ids 1, 2 and 5 the next
  id is 6. The ids of the file are still numbers after \<^verbatim>\<open>scheduleAppointment\<close> and after
  \<^verbatim>\<open>cancelAppointment\<close>, so they are in every file the two operations make of the empty
  one.
\<close>

theorem scheduleAppointment_checks:
  assumes "\<forall>c\<in>set citas. py_int (appt_id c) \<noteq> None"
  shows "scheduleAppointment users citas p pw d f t =
     (if blank p \<or> blank pw \<or> blank d \<or> blank f \<or> blank t
      then Inr (''invalid data'', citas)
      else if (\<forall>u\<in>set users. user_name u \<noteq> d)
              \<or> (\<exists>u. find_user users d = Some u \<and> user_role u \<noteq> ''doctor'')
      then Inr (''doctor not found'', citas)
      else if (\<forall>u\<in>set users. user_name u \<noteq> p)
              \<or> (\<exists>u. find_user users p = Some u
                      \<and> (user_password u \<noteq> pw \<or> user_session u \<noteq> Some True))
      then Inr (''user not logged in'', citas)
      else if valid_slot f t \<noteq> ''ok'' then Inr (valid_slot f t, citas)
      else if (\<exists>c\<in>set citas. appt_doctor c = d \<and> appt_date c = f \<and> appt_time c = t
                               \<and> appt_status c = ''scheduled'')
      then Inr (''slot taken'', citas)
      else Inr (''ok'',
                citas @ [\<lparr>appt_id =
                            (if citas = [] then ''1''
                             else py_str (Max ((\<lambda>c. the (py_int (appt_id c))) ` set citas) + 1)),
                          appt_patient = p, appt_doctor = d, appt_date = f, appt_time = t,
                          appt_status = ''scheduled''\<rparr>]))
     \<and> (map appt_id citas = [''1'', ''2'', ''5''] \<longrightarrow> next_id citas = Inr ''6'')
     \<and> (\<forall>r citas'. scheduleAppointment users citas p pw d f t = Inr (r, citas')
            \<longrightarrow> (\<forall>c\<in>set citas'. py_int (appt_id c) \<noteq> None))
     \<and> (\<forall>c\<in>set (snd (cancelAppointment users citas q qpw a)). py_int (appt_id c) \<noteq> None)"
proof -
  have "next_id citas = Inr ''6''" if ids: "map appt_id citas = [''1'', ''2'', ''5'']"
  proof -
    have "set (map (\<lambda>c. the (py_int (appt_id c))) citas)
          = set (map (\<lambda>s. the (py_int s)) (map appt_id citas))"
      by (simp add: comp_def)
    also have "\<dots> = {1, 2, 5}"
      unfolding ids
      by (simp add: py_int_def py_nat_def int_space_def is_digit_def digit_val_def)
    finally have "(\<lambda>c. the (py_int (appt_id c))) ` set citas = {1, 2, 5}" by simp
    moreover have "citas \<noteq> []" using ids by auto
    ultimately show ?thesis
      using next_id_numeric [OF assms] by (simp add: py_str_6)
  qed
  moreover have "\<forall>r citas'. scheduleAppointment users citas p pw d f t = Inr (r, citas')
            \<longrightarrow> (\<forall>c\<in>set citas'. py_int (appt_id c) \<noteq> None)"
    using scheduleAppointment_numeric [OF assms] by blast
  ultimately show ?thesis
    using scheduleAppointment_general [OF assms] cancelAppointment_numeric [OF assms] by blast
qed

theorem scheduleAppointment_checks_witness:
  "scheduleAppointment ex_users ex_citas ''ana'' '' '' ''paz'' ''18/03/2024'' ''16:00''
     = Inr (''invalid data'', ex_citas)
   \<and> scheduleAppointment ex_users ex_citas ''ana'' ''clave'' ''luis'' ''18/03/2024'' ''16:00''
     = Inr (''doctor not found'', ex_citas)
   \<and> scheduleAppointment ex_users ex_citas ''ana'' ''olvido'' ''paz'' ''18/03/2024'' ''16:00''
     = Inr (''user not logged in'', ex_citas)
   \<and> scheduleAppointment ex_users ex_citas ''ana'' ''clave'' ''paz'' ''17/03/2024'' ''16:00''
     = Inr (''out of range'', ex_citas)
   \<and> scheduleAppointment ex_users ex_citas ''ana'' ''clave'' ''paz'' ''18/03/2024'' ''16:00''
     = Inr (''slot taken'', ex_citas)
   \<and> scheduleAppointment ex_users ex_citas ''ana'' ''clave'' ''rojas'' ''18/03/2024'' ''16:00''
     = Inr (''ok'', ex_citas @ [\<lparr>appt_id = ''6'', appt_patient = ''ana'', appt_doctor = ''rojas'',
                                  appt_date = ''18/03/2024'', appt_time = ''16:00'',
                                  appt_status = ''scheduled''\<rparr>])"
proof -
  note h = ex_citas_numeric
  have v1: "valid_slot ''18/03/2024'' ''16:00'' = ''ok''" by (simp add: slot_eval)
  have v2: "valid_slot ''17/03/2024'' ''16:00'' = ''out of range''" by (simp add: slot_eval)
  have ne: "ex_citas \<noteq> []" by (simp add: ex_citas_def)
  have 1: "scheduleAppointment ex_users ex_citas ''ana'' '' '' ''paz'' ''18/03/2024'' ''16:00''
     = Inr (''invalid data'', ex_citas)"
    using scheduleAppointment_checks [OF h, of ex_users "''ana''" "'' ''" "''paz''"
        "''18/03/2024''" "''16:00''", THEN conjunct1]
    by (simp add: blank_examples)
  have 2: "scheduleAppointment ex_users ex_citas ''ana'' ''clave'' ''luis'' ''18/03/2024'' ''16:00''
     = Inr (''doctor not found'', ex_citas)"
    using scheduleAppointment_checks [OF h, of ex_users "''ana''" "''clave''" "''luis''"
        "''18/03/2024''" "''16:00''", THEN conjunct1]
    by (simp add: blank_examples) (simp add: ex_users_def)
  have 3: "scheduleAppointment ex_users ex_citas ''ana'' ''olvido'' ''paz'' ''18/03/2024'' ''16:00''
     = Inr (''user not logged in'', ex_citas)"
    using scheduleAppointment_checks [OF h, of ex_users "''ana''" "''olvido''" "''paz''"
        "''18/03/2024''" "''16:00''", THEN conjunct1]
    by (simp add: blank_examples) (simp add: ex_users_def)
  have 4: "scheduleAppointment ex_users ex_citas ''ana'' ''clave'' ''paz'' ''17/03/2024'' ''16:00''
     = Inr (''out of range'', ex_citas)"
    using scheduleAppointment_checks [OF h, of ex_users "''ana''" "''clave''" "''paz''"
        "''17/03/2024''" "''16:00''", THEN conjunct1]
    by (simp add: blank_examples v2) (simp add: ex_users_def)
  have 5: "scheduleAppointment ex_users ex_citas ''ana'' ''clave'' ''paz'' ''18/03/2024'' ''16:00''
     = Inr (''slot taken'', ex_citas)"
    using scheduleAppointment_checks [OF h, of ex_users "''ana''" "''clave''" "''paz''"
        "''18/03/2024''" "''16:00''", THEN conjunct1]
    by (simp add: blank_examples v1) (simp add: ex_users_def ex_citas_def)
  have 6: "scheduleAppointment ex_users ex_citas ''ana'' ''clave'' ''rojas'' ''18/03/2024'' ''16:00''
     = Inr (''ok'', ex_citas @ [\<lparr>appt_id = ''6'', appt_patient = ''ana'', appt_doctor = ''rojas'',
                                  appt_date = ''18/03/2024'', appt_time = ''16:00'',
                                  appt_status = ''scheduled''\<rparr>])"
    using scheduleAppointment_checks [OF h, of ex_users "''ana''" "''clave''" "''rojas''"
        "''18/03/2024''" "''16:00''", THEN conjunct1]
    by (simp add: blank_examples v1 ne ex_citas_ids py_str_6) (simp add: ex_users_def ex_citas_def)
  from 1 2 3 4 5 6 show ?thesis by blast
qed

subsection \<open>Scheduling, cancelling and scheduling again\<close>

lemma ex_users_facts:
  "find_user ex_users ''paz'' = Some \<lparr>user_name = ''paz'', user_password = ''secreta'',
      user_role = ''doctor'', user_session = None\<rparr>"
  "find_user ex_users ''rojas'' = Some \<lparr>user_name = ''rojas'', user_password = ''xyz'',
      user_role = ''doctor'', user_session = Some False\<rparr>"
  "logged_in ex_users ''ana'' ''clave''"
  "logged_in ex_users ''luis'' ''1234''"
  "\<not> logged_in ex_users ''eva'' ''abcd''"
  by (simp_all add: ex_users_def logged_in_def)

lemma blank_examples2:
  "\<not> blank ''1234''" "\<not> blank ''20/03/2024''" "\<not> blank ''09:00''"
  by (simp_all add: blank_def strip_def isspace_def)

lemma slot_examples:
  "valid_slot ''18/03/2024'' ''16:00'' = ''ok''"
  "valid_slot ''20/03/2024'' ''09:00'' = ''ok''"
  by (simp_all add: slot_eval)






subsection \<open>Two doctors at one time\<close>

lemma row_ids_patient: "row_ids (map (\<lambda>c. c\<lparr>appt_patient := g c\<rparr>) rows) = row_ids rows"
  by (induction rows) (auto split: option.splits)

lemma next_id_patient: "next_id (map (\<lambda>c. c\<lparr>appt_patient := g c\<rparr>) rows) = next_id rows"
  by (simp add: next_id_def row_ids_patient)

lemma occupies_patient:
  "list_ex (occupies d f t) (map (\<lambda>c. c\<lparr>appt_patient := g c\<rparr>) citas)
   = list_ex (occupies d f t) citas"
  by (simp add: list_ex_iff occupies_def)

lemma scheduleAppointment_patient_blind:
  "map_sum id fst (scheduleAppointment users (map (\<lambda>c. c\<lparr>appt_patient := g c\<rparr>) citas) p pw d f t)
   = map_sum id fst (scheduleAppointment users citas p pw d f t)"
  unfolding scheduleAppointment_unfold
  by (simp add: next_id_patient occupies_patient split: sum.splits)

text \<open>
  C10. The collision test of \<^verbatim>\<open>scheduleAppointment\<close> reads the doctor, the date, the
  time and the status of the stored appointments and not their patients: replacing the
  patients in the file changes no result. So on a file of numeric ids in which neither
  of two different doctors has a scheduled appointment at a valid date and time, a
  logged-in patient who schedules that date and time with the first doctor and then
  with the second gets \<^verbatim>\<open>"ok"\<close> twice, and the file ends with two scheduled appointments
  of that patient at the same date and time.
\<close>

theorem scheduleAppointment_two_doctors:
  assumes "\<not> blank p" and "\<not> blank pw" and "\<not> blank d1" and "\<not> blank d2"
    and "\<not> blank f" and "\<not> blank t"
    and "find_user users d1 = Some u1" and "user_role u1 = ''doctor''"
    and "find_user users d2 = Some u2" and "user_role u2 = ''doctor''"
    and "d1 \<noteq> d2"
    and "find_user users p = Some u" and "user_password u = pw" and "user_session u = Some True"
    and "valid_slot f t = ''ok''"
    and "\<forall>c\<in>set citas. py_int (appt_id c) \<noteq> None"
    and "\<not> (\<exists>c\<in>set citas. (appt_doctor c = d1 \<or> appt_doctor c = d2) \<and> appt_date c = f
                           \<and> appt_time c = t \<and> appt_status c = ''scheduled'')"
  shows "(\<exists>n1 n2.
            scheduleAppointment users citas p pw d1 f t
              = Inr (''ok'', citas @ [\<lparr>appt_id = n1, appt_patient = p, appt_doctor = d1,
                                       appt_date = f, appt_time = t,
                                       appt_status = ''scheduled''\<rparr>])
          \<and> scheduleAppointment users
                (citas @ [\<lparr>appt_id = n1, appt_patient = p, appt_doctor = d1,
                           appt_date = f, appt_time = t, appt_status = ''scheduled''\<rparr>])
                p pw d2 f t
              = Inr (''ok'', citas @ [\<lparr>appt_id = n1, appt_patient = p, appt_doctor = d1,
                                       appt_date = f, appt_time = t,
                                       appt_status = ''scheduled''\<rparr>,
                                      \<lparr>appt_id = n2, appt_patient = p, appt_doctor = d2,
                                       appt_date = f, appt_time = t,
                                       appt_status = ''scheduled''\<rparr>]))
     \<and> (\<forall>g. map_sum id fst
               (scheduleAppointment users (map (\<lambda>c. c\<lparr>appt_patient := g c\<rparr>) citas) p pw d1 f t)
             = map_sum id fst (scheduleAppointment users citas p pw d1 f t))"
proof -
  have li: "logged_in users p pw" using assms(12-14) by (simp add: logged_in_def)
  have free1: "\<not> list_ex (occupies d1 f t) citas"
    using assms(17) by (auto simp: list_ex_occupies)
  from scheduleAppointment_ok_I [OF assms(1,2,3,5,6) assms(7,8) li assms(15) free1 assms(16)]
  obtain n1 where n1: "py_int n1 \<noteq> None"
    and s1: "scheduleAppointment users citas p pw d1 f t
              = Inr (''ok'', citas @ [\<lparr>appt_id = n1, appt_patient = p, appt_doctor = d1,
                                       appt_date = f, appt_time = t,
                                       appt_status = ''scheduled''\<rparr>])"
    by blast
  let ?a1 = "\<lparr>appt_id = n1, appt_patient = p, appt_doctor = d1,
              appt_date = f, appt_time = t, appt_status = ''scheduled''\<rparr>"
  have free2: "\<not> list_ex (occupies d2 f t) (citas @ [?a1])"
    using assms(17) assms(11) by (auto simp: list_ex_iff occupies_def)
  have num2: "\<forall>c\<in>set (citas @ [?a1]). py_int (appt_id c) \<noteq> None"
    using assms(16) n1 by simp
  from scheduleAppointment_ok_I [OF assms(1,2,4,5,6) assms(9,10) li assms(15) free2 num2]
  obtain n2 where
    s2: "scheduleAppointment users (citas @ [?a1]) p pw d2 f t
              = Inr (''ok'', (citas @ [?a1]) @ [\<lparr>appt_id = n2, appt_patient = p, appt_doctor = d2,
                                       appt_date = f, appt_time = t,
                                       appt_status = ''scheduled''\<rparr>])"
    by blast
  from s1 s2 have "\<exists>n1 n2.
            scheduleAppointment users citas p pw d1 f t
              = Inr (''ok'', citas @ [\<lparr>appt_id = n1, appt_patient = p, appt_doctor = d1,
                                       appt_date = f, appt_time = t,
                                       appt_status = ''scheduled''\<rparr>])
          \<and> scheduleAppointment users
                (citas @ [\<lparr>appt_id = n1, appt_patient = p, appt_doctor = d1,
                           appt_date = f, appt_time = t, appt_status = ''scheduled''\<rparr>])
                p pw d2 f t
              = Inr (''ok'', citas @ [\<lparr>appt_id = n1, appt_patient = p, appt_doctor = d1,
                                       appt_date = f, appt_time = t,
                                       appt_status = ''scheduled''\<rparr>,
                                      \<lparr>appt_id = n2, appt_patient = p, appt_doctor = d2,
                                       appt_date = f, appt_time = t,
                                       appt_status = ''scheduled''\<rparr>])"
    by auto
  then show ?thesis using scheduleAppointment_patient_blind by blast
qed

theorem scheduleAppointment_two_doctors_witness:
  "\<exists>n1 n2.
      scheduleAppointment ex_users ex_citas ''ana'' ''clave'' ''paz'' ''20/03/2024'' ''09:00''
        = Inr (''ok'', ex_citas @ [\<lparr>appt_id = n1, appt_patient = ''ana'', appt_doctor = ''paz'',
                                     appt_date = ''20/03/2024'', appt_time = ''09:00'',
                                     appt_status = ''scheduled''\<rparr>])
    \<and> scheduleAppointment ex_users
          (ex_citas @ [\<lparr>appt_id = n1, appt_patient = ''ana'', appt_doctor = ''paz'',
                         appt_date = ''20/03/2024'', appt_time = ''09:00'',
                         appt_status = ''scheduled''\<rparr>])
          ''ana'' ''clave'' ''rojas'' ''20/03/2024'' ''09:00''
        = Inr (''ok'', ex_citas @ [\<lparr>appt_id = n1, appt_patient = ''ana'', appt_doctor = ''paz'',
                                     appt_date = ''20/03/2024'', appt_time = ''09:00'',
                                     appt_status = ''scheduled''\<rparr>,
                                    \<lparr>appt_id = n2, appt_patient = ''ana'', appt_doctor = ''rojas'',
                                     appt_date = ''20/03/2024'', appt_time = ''09:00'',
                                     appt_status = ''scheduled''\<rparr>])"
proof -
  let ?u = "\<lparr>user_name = ''ana'', user_password = ''clave'', user_role = ''patient'',
             user_session = Some True\<rparr>"
  have f: "find_user ex_users ''ana'' = Some ?u" by (simp add: ex_users_def)
  have pw: "user_password ?u = ''clave''" and se: "user_session ?u = Some True" by simp_all
  have r1: "user_role \<lparr>user_name = ''paz'', user_password = ''secreta'',
      user_role = ''doctor'', user_session = None\<rparr> = ''doctor''" by simp
  have r2: "user_role \<lparr>user_name = ''rojas'', user_password = ''xyz'',
      user_role = ''doctor'', user_session = Some False\<rparr> = ''doctor''" by simp
  have ne: "''paz'' \<noteq> ''rojas''" by simp
  have free: "\<not> (\<exists>c\<in>set ex_citas. (appt_doctor c = ''paz'' \<or> appt_doctor c = ''rojas'')
                  \<and> appt_date c = ''20/03/2024''
                  \<and> appt_time c = ''09:00'' \<and> appt_status c = ''scheduled'')"
    by (simp add: ex_citas_def)
  from scheduleAppointment_two_doctors [OF blank_examples(2) blank_examples(4) blank_examples(5)
      blank_examples(6) blank_examples2(2) blank_examples2(3) ex_users_facts(1) r1
      ex_users_facts(2) r2 ne f pw se slot_examples(2) ex_citas_numeric free]
  show ?thesis by blast
qed

subsection \<open>Affiliates\<close>

lemma registerAffiliate_unfold:
  "registerAffiliate afiliados i n s b p g e =
     (if blank i \<or> blank n \<or> blank s \<or> blank b \<or> blank p \<or> blank g \<or> blank e
      then (''invalid data'', afiliados)
      else if strptime_date b = None then (''invalid date format'', afiliados)
      else if p \<notin> {''A'', ''B'', ''C''} \<or> g \<notin> {''M'', ''F'', ''X''}
              \<or> CHR ''@'' \<notin> set e \<or> CHR ''.'' \<notin> set e
      then (''invalid data'', afiliados)
      else if i \<in> aff_id ` set afiliados then (''id already exists'', afiliados)
      else (''ok'',
            afiliados @ [\<lparr>aff_id = i, aff_names = n, aff_surnames = s, aff_birth = b,
                           aff_plan = p, aff_gender = g, aff_email = e\<rparr>]))"
proof -
  have ex: "list_ex (\<lambda>af. aff_id af = i) afiliados \<longleftrightarrow> i \<in> aff_id ` set afiliados"
    by (auto simp: list_ex_iff)
  show ?thesis
    unfolding registerAffiliate_def ex
    by (cases "strptime_date b")
       (simp_all add: convertir_fecha_def plan_valido_def genero_valido_def correo_valido_def)
qed

lemma registerAffiliate_distinct:
  assumes "distinct (map aff_id afiliados)"
  shows "distinct (map aff_id (snd (registerAffiliate afiliados i n s b p g e)))"
  using assms unfolding registerAffiliate_unfold by auto

lemma registered_distinct: "registered afiliados \<Longrightarrow> distinct (map aff_id afiliados)"
  by (induction rule: registered.induct) (simp_all add: registerAffiliate_distinct)

lemma py_min_Min: "xs \<noteq> [] \<Longrightarrow> py_min xs = Min (set xs)"
proof (cases xs)
  case Nil
  assume "xs \<noteq> []"
  with Nil show ?thesis by simp
next
  case (Cons a list)
  show ?thesis unfolding Cons py_min_def by (simp only: list.sel Min.set_eq_fold)
qed

lemma py_max_Max: "xs \<noteq> [] \<Longrightarrow> py_max xs = Max (set xs)"
proof (cases xs)
  case Nil
  assume "xs \<noteq> []"
  with Nil show ?thesis by simp
next
  case (Cons a list)
  show ?thesis unfolding Cons py_max_def by (simp only: list.sel Max.set_eq_fold)
qed

lemma ex_afiliados_ids: "aff_id ` set ex_afiliados = {''1010'', ''2020'', ''3030'', ''4040''}"
  by (simp add: ex_afiliados_def)

lemma blank_examples3:
  "blank ''  ''" "\<not> blank ''1010''" "\<not> blank ''5050''" "\<not> blank ''Ana''" "\<not> blank ''Zapata''"
  "\<not> blank ''01/01/1990''" "\<not> blank ''1990-01-01''" "\<not> blank ''A''" "\<not> blank ''Z''"
  "\<not> blank ''F''" "\<not> blank ''ana@eps.co''"
  by (simp_all add: blank_def strip_def isspace_def)

lemma date_examples:
  "strptime_date ''01/01/1990'' = Some \<lparr>year = 1990, month = 1, day = 1\<rparr>"
  "strptime_date ''15/06/2010'' = Some \<lparr>year = 2010, month = 6, day = 15\<rparr>"
  "strptime_date ''29/02/2000'' = Some \<lparr>year = 2000, month = 2, day = 29\<rparr>"
  "strptime_date ''1990-01-01'' = None"
  "strptime_date ''1985-12-24'' = None"
  by (simp_all add: slot_eval)

text \<open>
  C4. \<^verbatim>\<open>registerAffiliate\<close> returns the first of: \<^verbatim>\<open>"invalid data"\<close> when one of the seven
  fields holds only white space (or nothing); \<^verbatim>\<open>"invalid date format"\<close> when the birth
  does not parse; \<^verbatim>\<open>"invalid data"\<close> when the plan is not A, B or C, the gender is not M, F
  or X, or the email has no \<^verbatim>\<open>@\<close> or no dot; \<^verbatim>\<open>"id already exists"\<close> when an affiliate of
  the file has the id. In these cases the file is unchanged. Otherwise it appends the
  new affiliate and returns \<^verbatim>\<open>"ok"\<close>.
\<close>

theorem registerAffiliate_checks:
  "registerAffiliate afiliados i n s b p g e =
     (if \<exists>x\<in>set [i, n, s, b, p, g, e]. \<forall>c\<in>set x. isspace c
      then (''invalid data'', afiliados)
      else if convertir_fecha b = None then (''invalid date format'', afiliados)
      else if p \<notin> {''A'', ''B'', ''C''} \<or> g \<notin> {''M'', ''F'', ''X''}
              \<or> CHR ''@'' \<notin> set e \<or> CHR ''.'' \<notin> set e
      then (''invalid data'', afiliados)
      else if \<exists>af\<in>set afiliados. aff_id af = i then (''id already exists'', afiliados)
      else (''ok'',
            afiliados @ [\<lparr>aff_id = i, aff_names = n, aff_surnames = s, aff_birth = b,
                           aff_plan = p, aff_gender = g, aff_email = e\<rparr>]))"
proof -
  have b: "(\<exists>x\<in>set [i, n, s, b, p, g, e]. \<forall>c\<in>set x. isspace c)
        \<longleftrightarrow> blank i \<or> blank n \<or> blank s \<or> blank b \<or> blank p \<or> blank g \<or> blank e"
    by (simp add: blank_iff)
  have d: "(\<exists>af\<in>set afiliados. aff_id af = i) \<longleftrightarrow> i \<in> aff_id ` set afiliados"
    by auto
  show ?thesis
    unfolding b d convertir_fecha_def by (rule registerAffiliate_unfold)
qed

theorem registerAffiliate_checks_witness:
  "registerAffiliate ex_afiliados ''5050'' ''  '' ''Zapata'' ''01/01/1990'' ''A'' ''F'' ''ana@eps.co''
     = (''invalid data'', ex_afiliados)
   \<and> registerAffiliate ex_afiliados ''1010'' ''Ana'' ''Zapata'' ''1990-01-01'' ''Z'' ''F'' ''ana@eps.co''
     = (''invalid date format'', ex_afiliados)
   \<and> registerAffiliate ex_afiliados ''1010'' ''Ana'' ''Zapata'' ''01/01/1990'' ''Z'' ''F'' ''ana@eps.co''
     = (''invalid data'', ex_afiliados)
   \<and> registerAffiliate ex_afiliados ''1010'' ''Ana'' ''Zapata'' ''01/01/1990'' ''A'' ''F'' ''ana@eps.co''
     = (''id already exists'', ex_afiliados)
   \<and> registerAffiliate ex_afiliados ''5050'' ''Ana'' ''Zapata'' ''01/01/1990'' ''A'' ''F'' ''ana@eps.co''
     = (''ok'', ex_afiliados @ [\<lparr>aff_id = ''5050'', aff_names = ''Ana'', aff_surnames = ''Zapata'',
                                  aff_birth = ''01/01/1990'', aff_plan = ''A'', aff_gender = ''F'',
                                  aff_email = ''ana@eps.co''\<rparr>])"
proof -
  have ids: "(\<exists>af\<in>set ex_afiliados. aff_id af = ''1010'')"
    "\<not> (\<exists>af\<in>set ex_afiliados. aff_id af = ''5050'')"
    by (simp_all add: ex_afiliados_def)
  note bl = blank_examples3 [unfolded blank_iff]
  have 1: "registerAffiliate ex_afiliados ''5050'' ''  '' ''Zapata'' ''01/01/1990'' ''A'' ''F''
             ''ana@eps.co'' = (''invalid data'', ex_afiliados)"
    using registerAffiliate_checks [of ex_afiliados "''5050''" "''  ''" "''Zapata''"
        "''01/01/1990''" "''A''" "''F''" "''ana@eps.co''"] bl
    by simp
  have 2: "registerAffiliate ex_afiliados ''1010'' ''Ana'' ''Zapata'' ''1990-01-01'' ''Z'' ''F''
             ''ana@eps.co'' = (''invalid date format'', ex_afiliados)"
    using registerAffiliate_checks [of ex_afiliados "''1010''" "''Ana''" "''Zapata''"
        "''1990-01-01''" "''Z''" "''F''" "''ana@eps.co''"] bl
    by (simp add: convertir_fecha_def date_examples)
  have 3: "registerAffiliate ex_afiliados ''1010'' ''Ana'' ''Zapata'' ''01/01/1990'' ''Z'' ''F''
             ''ana@eps.co'' = (''invalid data'', ex_afiliados)"
    using registerAffiliate_checks [of ex_afiliados "''1010''" "''Ana''" "''Zapata''"
        "''01/01/1990''" "''Z''" "''F''" "''ana@eps.co''"] bl
    by (simp add: convertir_fecha_def date_examples)
  have 4: "registerAffiliate ex_afiliados ''1010'' ''Ana'' ''Zapata'' ''01/01/1990'' ''A'' ''F''
             ''ana@eps.co'' = (''id already exists'', ex_afiliados)"
    using registerAffiliate_checks [of ex_afiliados "''1010''" "''Ana''" "''Zapata''"
        "''01/01/1990''" "''A''" "''F''" "''ana@eps.co''"] bl ids
    by (simp add: convertir_fecha_def date_examples)
  have 5: "registerAffiliate ex_afiliados ''5050'' ''Ana'' ''Zapata'' ''01/01/1990'' ''A'' ''F''
             ''ana@eps.co''
     = (''ok'', ex_afiliados @ [\<lparr>aff_id = ''5050'', aff_names = ''Ana'', aff_surnames = ''Zapata'',
                                  aff_birth = ''01/01/1990'', aff_plan = ''A'', aff_gender = ''F'',
                                  aff_email = ''ana@eps.co''\<rparr>])"
    using registerAffiliate_checks [of ex_afiliados "''5050''" "''Ana''" "''Zapata''"
        "''01/01/1990''" "''A''" "''F''" "''ana@eps.co''"] bl ids
    by (simp add: convertir_fecha_def date_examples)
  from 1 2 3 4 5 show ?thesis by blast
qed

text \<open>
  C3, as the specification states it: an id that is already in the file always gives
  \<^verbatim>\<open>"id already exists"\<close>. The source tests the id last, so with the id 1010 of the sample
  file and the plan Z the result is \<^verbatim>\<open>"invalid data"\<close>.
\<close>

theorem registerAffiliate_duplicate_counterexample:
  "''1010'' \<in> aff_id ` set ex_afiliados
   \<and> registerAffiliate ex_afiliados ''1010'' ''Ana'' ''Zapata'' ''01/01/1990'' ''Z'' ''F''
        ''ana@eps.co'' = (''invalid data'', ex_afiliados)
   \<and> ''invalid data'' \<noteq> ''id already exists''"
  unfolding registerAffiliate_unfold
  by (simp add: ex_afiliados_ids blank_examples3 date_examples)

text \<open>
  C3, amended. With an id that is already in the file, \<^verbatim>\<open>registerAffiliate\<close> leaves the
  file unchanged and never returns \<^verbatim>\<open>"ok"\<close>: it returns \<^verbatim>\<open>"id already exists"\<close> exactly when
  no field is blank, the birth parses and the plan, the gender and the email are valid,
  and the error of the first failed validation otherwise.
\<close>

theorem registerAffiliate_duplicate:
  assumes "i \<in> aff_id ` set afiliados"
  shows "snd (registerAffiliate afiliados i n s b p g e) = afiliados
     \<and> fst (registerAffiliate afiliados i n s b p g e)
         \<in> {''invalid data'', ''invalid date format'', ''id already exists''}
     \<and> (fst (registerAffiliate afiliados i n s b p g e) = ''id already exists''
          \<longleftrightarrow> \<not> blank i \<and> \<not> blank n \<and> \<not> blank s \<and> \<not> blank b \<and> \<not> blank p \<and> \<not> blank g
              \<and> \<not> blank e \<and> convertir_fecha b \<noteq> None
              \<and> plan_valido p \<and> genero_valido g \<and> correo_valido e)"
  using assms unfolding registerAffiliate_unfold
  by (simp add: convertir_fecha_def plan_valido_def genero_valido_def correo_valido_def)

theorem registerAffiliate_duplicate_witness:
  "registerAffiliate ex_afiliados ''1010'' ''Ana'' ''Zapata'' ''01/01/1990'' ''A'' ''F'' ''ana@eps.co''
     = (''id already exists'', ex_afiliados)
   \<and> snd (registerAffiliate ex_afiliados ''1010'' ''Ana'' ''Zapata'' ''1990-01-01'' ''A'' ''F''
            ''ana@eps.co'') = ex_afiliados
   \<and> fst (registerAffiliate ex_afiliados ''1010'' ''Ana'' ''Zapata'' ''1990-01-01'' ''A'' ''F''
            ''ana@eps.co'') \<noteq> ''id already exists''"
proof -
  have d: "''1010'' \<in> aff_id ` set ex_afiliados" by (simp add: ex_afiliados_ids)
  note a = registerAffiliate_duplicate [OF d, of "''Ana''" "''Zapata''" "''01/01/1990''"
      "''A''" "''F''" "''ana@eps.co''"]
  note b = registerAffiliate_duplicate [OF d, of "''Ana''" "''Zapata''" "''1990-01-01''"
      "''A''" "''F''" "''ana@eps.co''"]
  have v: "plan_valido ''A''" "genero_valido ''F''" "correo_valido ''ana@eps.co''"
    "convertir_fecha ''01/01/1990'' \<noteq> None" "convertir_fecha ''1990-01-01'' = None"
    by (simp_all add: plan_valido_def genero_valido_def correo_valido_def convertir_fecha_def
        date_examples)
  have 1: "registerAffiliate ex_afiliados ''1010'' ''Ana'' ''Zapata'' ''01/01/1990'' ''A'' ''F''
     ''ana@eps.co'' = (''id already exists'', ex_afiliados)"
    using a v blank_examples3 by (simp add: prod_eq_iff)
  have 2: "snd (registerAffiliate ex_afiliados ''1010'' ''Ana'' ''Zapata'' ''1990-01-01'' ''A'' ''F''
            ''ana@eps.co'') = ex_afiliados"
    using b by blast
  have 3: "fst (registerAffiliate ex_afiliados ''1010'' ''Ana'' ''Zapata'' ''1990-01-01'' ''A'' ''F''
            ''ana@eps.co'') \<noteq> ''id already exists''"
    using b v(5) by blast
  from 1 2 3 show ?thesis by blast
qed

text \<open>
  C8. In every affiliate file that registrations produce from the empty file, no id
  occurs twice. \<^verbatim>\<open>registerAffiliate\<close> keeps the ids distinct, and it appends nothing when
  the id is already in the file.
\<close>

theorem registered_ids_unique:
  "(registered afiliados \<longrightarrow> distinct (map aff_id afiliados))
   \<and> (distinct (map aff_id afiliados)
        \<longrightarrow> distinct (map aff_id (snd (registerAffiliate afiliados i n s b p g e))))
   \<and> (i \<in> aff_id ` set afiliados
        \<longrightarrow> snd (registerAffiliate afiliados i n s b p g e) = afiliados)"
proof (intro conjI impI)
  assume "registered afiliados"
  then show "distinct (map aff_id afiliados)" by (rule registered_distinct)
next
  assume "distinct (map aff_id afiliados)"
  then show "distinct (map aff_id (snd (registerAffiliate afiliados i n s b p g e)))"
    by (rule registerAffiliate_distinct)
next
  assume "i \<in> aff_id ` set afiliados"
  then show "snd (registerAffiliate afiliados i n s b p g e) = afiliados"
    unfolding registerAffiliate_unfold by simp
qed

theorem registered_ids_unique_witness:
  "registered
     [\<lparr>aff_id = ''1010'', aff_names = ''Ana'', aff_surnames = ''Zapata'',
       aff_birth = ''01/01/1990'', aff_plan = ''A'', aff_gender = ''F'',
       aff_email = ''ana@eps.co''\<rparr>,
      \<lparr>aff_id = ''5050'', aff_names = ''Ana'', aff_surnames = ''Zapata'',
       aff_birth = ''01/01/1990'', aff_plan = ''A'', aff_gender = ''F'',
       aff_email = ''ana@eps.co''\<rparr>]
   \<and> distinct (map aff_id
       [\<lparr>aff_id = ''1010'', aff_names = ''Ana'', aff_surnames = ''Zapata'',
         aff_birth = ''01/01/1990'', aff_plan = ''A'', aff_gender = ''F'',
         aff_email = ''ana@eps.co''\<rparr>,
        \<lparr>aff_id = ''5050'', aff_names = ''Ana'', aff_surnames = ''Zapata'',
         aff_birth = ''01/01/1990'', aff_plan = ''A'', aff_gender = ''F'',
         aff_email = ''ana@eps.co''\<rparr>])
   \<and> distinct (map aff_id (snd (registerAffiliate ex_afiliados ''5050'' ''Ana'' ''Zapata''
                                  ''01/01/1990'' ''A'' ''F'' ''ana@eps.co'')))
   \<and> snd (registerAffiliate ex_afiliados ''1010'' ''Ana'' ''Zapata'' ''01/01/1990'' ''A'' ''F''
            ''ana@eps.co'') = ex_afiliados"
proof -
  let ?a = "\<lparr>aff_id = ''1010'', aff_names = ''Ana'', aff_surnames = ''Zapata'',
             aff_birth = ''01/01/1990'', aff_plan = ''A'', aff_gender = ''F'',
             aff_email = ''ana@eps.co''\<rparr>"
  let ?b = "\<lparr>aff_id = ''5050'', aff_names = ''Ana'', aff_surnames = ''Zapata'',
             aff_birth = ''01/01/1990'', aff_plan = ''A'', aff_gender = ''F'',
             aff_email = ''ana@eps.co''\<rparr>"
  have s1: "snd (registerAffiliate [] ''1010'' ''Ana'' ''Zapata'' ''01/01/1990'' ''A'' ''F''
                  ''ana@eps.co'') = [?a]"
    unfolding registerAffiliate_unfold by (simp add: blank_examples3 date_examples)
  have s2: "snd (registerAffiliate [?a] ''5050'' ''Ana'' ''Zapata'' ''01/01/1990'' ''A'' ''F''
                  ''ana@eps.co'') = [?a, ?b]"
    unfolding registerAffiliate_unfold by (simp add: blank_examples3 date_examples)
  have "registered [?a]"
    using registered_step [OF registered_empty, of "''1010''" "''Ana''" "''Zapata''"
        "''01/01/1990''" "''A''" "''F''" "''ana@eps.co''"] s1 by simp
  from registered_step [OF this, of "''5050''" "''Ana''" "''Zapata''"
        "''01/01/1990''" "''A''" "''F''" "''ana@eps.co''"] s2
  have r: "registered [?a, ?b]" by simp
  have 1: "distinct (map aff_id [?a, ?b])"
    using registered_ids_unique [of "[?a, ?b]", THEN conjunct1] r by blast
  have d: "distinct (map aff_id ex_afiliados)" by (simp add: ex_afiliados_def)
  have 2: "distinct (map aff_id (snd (registerAffiliate ex_afiliados ''5050'' ''Ana'' ''Zapata''
                                  ''01/01/1990'' ''A'' ''F'' ''ana@eps.co'')))"
    using registered_ids_unique [of ex_afiliados "''5050''" "''Ana''" "''Zapata''"
        "''01/01/1990''" "''A''" "''F''" "''ana@eps.co''", THEN conjunct2, THEN conjunct1] d
    by blast
  have 3: "snd (registerAffiliate ex_afiliados ''1010'' ''Ana'' ''Zapata'' ''01/01/1990'' ''A'' ''F''
            ''ana@eps.co'') = ex_afiliados"
    using registered_ids_unique [of ex_afiliados "''1010''" "''Ana''" "''Zapata''"
        "''01/01/1990''" "''A''" "''F''" "''ana@eps.co''", THEN conjunct2, THEN conjunct2]
    by (simp add: ex_afiliados_ids)
  from r 1 2 3 show ?thesis by blast
qed

subsection \<open>The statistics\<close>

lemma stats_loop_TypeError:
  "\<exists>af\<in>set afiliados. row_birth af = None \<Longrightarrow> stats_loop hoy afiliados acc = Inl TypeError"
proof (induction afiliados arbitrary: acc)
  case Nil
  then show ?case by simp
next
  case (Cons af afiliados)
  show ?case
  proof (cases "row_birth af")
    case None
    then show ?thesis by (simp add: stats_step_def Let_def split: prod.splits)
  next
    case (Some b)
    with Cons.prems have "\<exists>af\<in>set afiliados. row_birth af = None" by auto
    from Cons.IH [OF this] Some show ?thesis
      by (simp add: stats_step_def Let_def split: prod.splits option.splits)
  qed
qed

lemma stats_loop_ages:
  "\<forall>af\<in>set afiliados. row_birth af \<noteq> None \<Longrightarrow>
   \<exists>tp' pg'. stats_loop hoy afiliados (tp, pg, todas)
               = Inr (tp', pg', todas @ parsed_ages hoy afiliados)"
proof (induction afiliados arbitrary: tp pg todas)
  case Nil
  then show ?case by (simp add: parsed_ages_def map_filter_simps)
next
  case (Cons af afiliados)
  then obtain b where b: "row_birth af = Some b" by auto
  have rest: "\<forall>af\<in>set afiliados. row_birth af \<noteq> None" using Cons.prems by simp
  show ?case
  proof (cases "convertir_fecha b")
    case None
    then show ?thesis
      using Cons.IH [OF rest, of _ pg todas] b
      by (simp add: stats_step_def Let_def parsed_ages_def map_filter_simps)
  next
    case (Some fecha)
    then show ?thesis
      using Cons.IH [OF rest, of _ _ "todas @ [calcular_edad hoy fecha]"] b
      by (simp add: stats_step_def Let_def parsed_ages_def map_filter_simps)
  qed
qed

lemma stats_empty: "stats hoy [] = Inr None"
  by (simp add: stats_def)

lemma stats_TypeError:
  "\<exists>af\<in>set afiliados. row_birth af = None \<Longrightarrow> stats hoy afiliados = Inl TypeError"
  by (auto simp: stats_def stats_loop_TypeError)

lemma stats_min_max:
  assumes "afiliados \<noteq> []" and "\<forall>af\<in>set afiliados. row_birth af \<noteq> None"
  shows "\<exists>r. stats hoy afiliados = Inr (Some r)
     \<and> edad_minima r = (if parsed_ages hoy afiliados = [] then 0
                        else Min (set (parsed_ages hoy afiliados)))
     \<and> edad_maxima r = (if parsed_ages hoy afiliados = [] then 0
                        else Max (set (parsed_ages hoy afiliados)))"
proof -
  from stats_loop_ages [OF assms(2)] obtain tp' pg' where
    "stats_loop hoy afiliados
       ([(''A'', 0), (''B'', 0), (''C'', 0)], [(''M'', []), (''F'', []), (''X'', [])], [])
     = Inr (tp', pg', [] @ parsed_ages hoy afiliados)"
    by blast
  then show ?thesis using assms(1) by (simp add: stats_def py_min_Min py_max_Max)
qed

lemma ex_parsed_ages: "parsed_ages ex_hoy (map row_of ex_afiliados) = [34, 13, 24]"
  by (simp add: parsed_ages_def ex_afiliados_def ex_hoy_def row_of_def map_filter_simps
      convertir_fecha_def date_examples calcular_edad_def)

lemma ex_spec_ages: "spec_ages ex_hoy (map row_of ex_afiliados) = [34, 24]"
  by (simp add: spec_ages_def parsed_ages_def ex_afiliados_def ex_hoy_def row_of_def
      map_filter_simps convertir_fecha_def date_examples calcular_edad_def genero_valido_def)

lemma ex_stats:
  "stats ex_hoy (map row_of ex_afiliados)
     = Inr (Some \<lparr>totales = [(''A'', 2), (''B'', 1), (''C'', 0)],
                  promedios_por_genero = [(''M'', 0), (''F'', 34), (''X'', 24)],
                  edad_minima = 13, edad_maxima = 34\<rparr>)"
  by (simp add: stats_def stats_step_def ex_afiliados_def ex_hoy_def row_of_def Let_def
      convertir_fecha_def date_examples calcular_edad_def promedio_def py_min_def py_max_def)

lemma ex_stats_short: "stats ex_hoy (map row_of ex_afiliados @ [ex_short_row]) = Inl TypeError"
  by (rule stats_TypeError) (simp add: ex_short_row_def)

text \<open>
  C9. The specification has the minimum and the maximum age taken over the affiliates
  whose birth parses and whose gender is M, F or X, the others being skipped without an
  error; the comment on the \<^verbatim>\<open>except\<close> clause of \<^verbatim>\<open>stats\<close> says the same. The source
  appends the age to \<^verbatim>\<open>todas_las_edades\<close> before it looks at the gender: in the sample file
  the affiliate of gender Q is 13 on 1 June 2024 and the youngest of the affiliates of a
  recognised gender is 24, and \<^verbatim>\<open>stats\<close> returns the minimum 13. And a row without a
  birth is not skipped: with the row of a short line added to the sample file, \<^verbatim>\<open>stats\<close>
  ends in a \<^verbatim>\<open>TypeError\<close>.
\<close>

theorem stats_ages_defect:
  "stats ex_hoy (map row_of ex_afiliados)
     = Inr (Some \<lparr>totales = [(''A'', 2), (''B'', 1), (''C'', 0)],
                  promedios_por_genero = [(''M'', 0), (''F'', 34), (''X'', 24)],
                  edad_minima = 13, edad_maxima = 34\<rparr>)
   \<and> spec_ages ex_hoy (map row_of ex_afiliados) = [34, 24]
   \<and> Min (set (spec_ages ex_hoy (map row_of ex_afiliados))) = 24
   \<and> stats ex_hoy (map row_of ex_afiliados @ [ex_short_row]) = Inl TypeError"
  by (simp add: ex_stats ex_spec_ages ex_stats_short)

subsection \<open>The sorted list of affiliates\<close>

lemma swap_step_length: "length (swap_step j xs) = length xs"
  by (simp add: swap_step_def)

lemma swap_step_mset: "Suc j < length xs \<Longrightarrow> mset (swap_step j xs) = mset xs"
  by (simp add: swap_step_def mset_swap)

lemma swap_filter:
  "Suc j < length xs \<Longrightarrow> \<not> (P (xs ! j) \<and> P (xs ! Suc j)) \<Longrightarrow>
   filter P (xs[j := xs ! Suc j, Suc j := xs ! j]) = filter P xs"
proof (induction xs arbitrary: j)
  case Nil
  then show ?case by simp
next
  case (Cons x xs)
  show ?case
  proof (cases j)
    case 0
    with Cons.prems show ?thesis by (cases xs) auto
  next
    case (Suc k)
    with Cons show ?thesis by simp
  qed
qed

lemma swap_step_filter:
  assumes "Suc j < length xs"
  shows "filter (\<lambda>a. surname_key a = v) (swap_step j xs) = filter (\<lambda>a. surname_key a = v) xs"
proof (cases "surname_key (xs ! j) > surname_key (xs ! (j + 1))")
  case True
  then have "\<not> (surname_key (xs ! j) = v \<and> surname_key (xs ! Suc j) = v)" by auto
  from swap_filter [OF assms, of "\<lambda>a. surname_key a = v", OF this] True
  show ?thesis by (simp add: swap_step_def)
next
  case False
  then show ?thesis by (simp add: swap_step_def)
qed

lemma fold_swap_inv:
  assumes "\<And>j ys. j < m \<Longrightarrow> Q ys \<Longrightarrow> Q (swap_step j ys)" and "Q xs"
  shows "Q (fold swap_step [0..<m] xs)"
  using assms by (induction m) simp_all

lemma bubble_pass_keeps:
  assumes "length xs = n"
  shows "length (bubble_pass n i xs) = n \<and> mset (bubble_pass n i xs) = mset xs
     \<and> (\<forall>v. filter (\<lambda>a. surname_key a = v) (bubble_pass n i xs)
             = filter (\<lambda>a. surname_key a = v) xs)"
  unfolding bubble_pass_def
proof (rule fold_swap_inv [where Q = "\<lambda>ys. length ys = n \<and> mset ys = mset xs
     \<and> (\<forall>v. filter (\<lambda>a. surname_key a = v) ys = filter (\<lambda>a. surname_key a = v) xs)"])
  fix j ys
  assume j: "j < n - i - 1"
    and q: "length ys = n \<and> mset ys = mset xs
       \<and> (\<forall>v. filter (\<lambda>a. surname_key a = v) ys = filter (\<lambda>a. surname_key a = v) xs)"
  then have "Suc j < length ys" by simp
  then show "length (swap_step j ys) = n \<and> mset (swap_step j ys) = mset xs
       \<and> (\<forall>v. filter (\<lambda>a. surname_key a = v) (swap_step j ys)
               = filter (\<lambda>a. surname_key a = v) xs)"
    using q by (simp add: swap_step_length swap_step_mset swap_step_filter)
next
  show "length xs = n \<and> mset xs = mset xs
     \<and> (\<forall>v. filter (\<lambda>a. surname_key a = v) xs = filter (\<lambda>a. surname_key a = v) xs)"
    using assms by simp
qed

lemma fold_pass_keeps:
  assumes "length xs = n"
  shows "length (fold (bubble_pass n) [0..<i] xs) = n
     \<and> mset (fold (bubble_pass n) [0..<i] xs) = mset xs
     \<and> (\<forall>v. filter (\<lambda>a. surname_key a = v) (fold (bubble_pass n) [0..<i] xs)
             = filter (\<lambda>a. surname_key a = v) xs)"
proof (induction i)
  case 0
  then show ?case using assms by simp
next
  case (Suc i)
  then show ?case
    using bubble_pass_keeps [of "fold (bubble_pass n) [0..<i] xs" n i] by simp
qed

lemma swap_step_nth:
  assumes "Suc j < length xs" and "a < length xs"
  shows "swap_step j xs ! a =
     (if surname_key (xs ! j) > surname_key (xs ! Suc j)
      then (if a = j then xs ! Suc j else if a = Suc j then xs ! j else xs ! a)
      else xs ! a)"
  using assms by (auto simp: swap_step_def nth_list_update)

lemma swap_step_settled:
  assumes len: "length xs = n" and j: "Suc j < n - i"
    and s: "\<forall>a b. a \<le> b \<longrightarrow> n - i \<le> b \<longrightarrow> b < n
               \<longrightarrow> surname_key (xs ! a) \<le> surname_key (xs ! b)"
  shows "\<forall>a b. a \<le> b \<longrightarrow> n - i \<le> b \<longrightarrow> b < n
           \<longrightarrow> surname_key (swap_step j xs ! a) \<le> surname_key (swap_step j xs ! b)"
proof (intro allI impI)
  fix a b
  assume ab: "a \<le> b" and lo: "n - i \<le> b" and hi: "b < n"
  have jl: "Suc j < length xs" using j len by simp
  have b: "swap_step j xs ! b = xs ! b"
    using swap_step_nth [OF jl, of b] j lo hi len by auto
  have "j \<le> b" "Suc j \<le> b" using j lo by auto
  then have "surname_key (xs ! j) \<le> surname_key (xs ! b)"
    "surname_key (xs ! Suc j) \<le> surname_key (xs ! b)"
    "surname_key (xs ! a) \<le> surname_key (xs ! b)"
    using s ab lo hi by auto
  then show "surname_key (swap_step j xs ! a) \<le> surname_key (swap_step j xs ! b)"
    unfolding b using swap_step_nth [OF jl, of a] ab hi len by auto
qed

lemma inner_loop:
  assumes len: "length xs = n" and m: "m < n - i"
    and s: "\<forall>a b. a \<le> b \<longrightarrow> n - i \<le> b \<longrightarrow> b < n
               \<longrightarrow> surname_key (xs ! a) \<le> surname_key (xs ! b)"
  shows "length (fold swap_step [0..<m] xs) = n
     \<and> (\<forall>a b. a \<le> b \<longrightarrow> n - i \<le> b \<longrightarrow> b < n
           \<longrightarrow> surname_key (fold swap_step [0..<m] xs ! a)
               \<le> surname_key (fold swap_step [0..<m] xs ! b))
     \<and> (\<forall>a\<le>m. surname_key (fold swap_step [0..<m] xs ! a)
               \<le> surname_key (fold swap_step [0..<m] xs ! m))"
  using m
proof (induction m)
  case 0
  then show ?case using len s by simp
next
  case (Suc m)
  let ?ys = "fold swap_step [0..<m] xs"
  from Suc have ih: "length ?ys = n"
    "\<forall>a b. a \<le> b \<longrightarrow> n - i \<le> b \<longrightarrow> b < n \<longrightarrow> surname_key (?ys ! a) \<le> surname_key (?ys ! b)"
    "\<forall>a\<le>m. surname_key (?ys ! a) \<le> surname_key (?ys ! m)"
    by auto
  have f: "fold swap_step [0..<Suc m] xs = swap_step m ?ys" by simp
  have jl: "Suc m < length ?ys" using Suc.prems ih(1) by simp
  have 1: "length (swap_step m ?ys) = n" using ih(1) by (simp add: swap_step_length)
  have 2: "\<forall>a b. a \<le> b \<longrightarrow> n - i \<le> b \<longrightarrow> b < n
           \<longrightarrow> surname_key (swap_step m ?ys ! a) \<le> surname_key (swap_step m ?ys ! b)"
    by (rule swap_step_settled [OF ih(1) Suc.prems ih(2)])
  have 3: "\<forall>a\<le>Suc m. surname_key (swap_step m ?ys ! a) \<le> surname_key (swap_step m ?ys ! Suc m)"
  proof (intro allI impI)
    fix a
    assume a: "a \<le> Suc m"
    then have al: "a < length ?ys" using jl by simp
    show "surname_key (swap_step m ?ys ! a) \<le> surname_key (swap_step m ?ys ! Suc m)"
    proof (cases "surname_key (?ys ! m) > surname_key (?ys ! Suc m)")
      case True
      then show ?thesis
        using swap_step_nth [OF jl al] swap_step_nth [OF jl, of "Suc m"] jl a ih(3)
        by (cases "a = m"; cases "a = Suc m") auto
    next
      case False
      then have le: "surname_key (?ys ! m) \<le> surname_key (?ys ! Suc m)" by simp
      show ?thesis
      proof (cases "a = Suc m")
        case True
        then show ?thesis by simp
      next
        case False
        then have "a \<le> m" using a by simp
        then have "surname_key (?ys ! a) \<le> surname_key (?ys ! m)" using ih(3) by simp
        with le have "surname_key (?ys ! a) \<le> surname_key (?ys ! Suc m)" by simp
        then show ?thesis
          using swap_step_nth [OF jl al] swap_step_nth [OF jl, of "Suc m"] jl
            \<open>\<not> surname_key (?ys ! Suc m) < surname_key (?ys ! m)\<close>
          by simp
      qed
    qed
  qed
  show ?case unfolding f using 1 2 3 by blast
qed

lemma bubble_pass_settles:
  assumes len: "length xs = n" and i: "i < n"
    and s: "\<forall>a b. a \<le> b \<longrightarrow> n - i \<le> b \<longrightarrow> b < n
               \<longrightarrow> surname_key (xs ! a) \<le> surname_key (xs ! b)"
  shows "\<forall>a b. a \<le> b \<longrightarrow> n - Suc i \<le> b \<longrightarrow> b < n
           \<longrightarrow> surname_key (bubble_pass n i xs ! a) \<le> surname_key (bubble_pass n i xs ! b)"
proof (intro allI impI)
  fix a b
  assume ab: "a \<le> b" and lo: "n - Suc i \<le> b" and hi: "b < n"
  have m: "n - i - 1 < n - i" using i by simp
  note il = inner_loop [OF len m s, folded bubble_pass_def]
  show "surname_key (bubble_pass n i xs ! a) \<le> surname_key (bubble_pass n i xs ! b)"
  proof (cases "n - i \<le> b")
    case True
    then show ?thesis using il ab hi by blast
  next
    case False
    then have "b = n - i - 1" using lo by simp
    then show ?thesis using il ab by simp
  qed
qed

lemma outer_loop:
  assumes len: "length xs = n" and i: "i \<le> n"
  shows "\<forall>a b. a \<le> b \<longrightarrow> n - i \<le> b \<longrightarrow> b < n
           \<longrightarrow> surname_key (fold (bubble_pass n) [0..<i] xs ! a)
               \<le> surname_key (fold (bubble_pass n) [0..<i] xs ! b)"
  using i
proof (induction i)
  case 0
  then show ?case by simp
next
  case (Suc i)
  let ?ys = "fold (bubble_pass n) [0..<i] xs"
  have l: "length ?ys = n" using fold_pass_keeps [OF len, of i] by simp
  have "i < n" using Suc.prems by simp
  from bubble_pass_settles [OF l this] Suc show ?case by simp
qed

lemma listAffiliates_sorted: "sorted (map surname_key (listAffiliates afiliados))"
proof -
  let ?n = "length afiliados"
  let ?zs = "fold (bubble_pass ?n) [0..<?n] afiliados"
  have l: "length ?zs = ?n" using fold_pass_keeps [of afiliados ?n ?n] by simp
  have "\<forall>a b. a \<le> b \<longrightarrow> b < ?n \<longrightarrow> surname_key (?zs ! a) \<le> surname_key (?zs ! b)"
    using outer_loop [of afiliados ?n ?n] by simp
  then have "sorted (map surname_key ?zs)"
    using l by (simp add: sorted_iff_nth_mono)
  then show ?thesis by (simp add: listAffiliates_def Let_def)
qed

lemma listAffiliates_keeps:
  "mset (listAffiliates afiliados) = mset afiliados
   \<and> (\<forall>v. filter (\<lambda>a. surname_key a = v) (listAffiliates afiliados)
           = filter (\<lambda>a. surname_key a = v) afiliados)"
  using fold_pass_keeps [of afiliados "length afiliados" "length afiliados"]
  by (simp add: listAffiliates_def Let_def)

lemma listAffiliates_sort_key: "listAffiliates afiliados = sort_key surname_key afiliados"
proof (rule properties_for_sort_key [symmetric])
  show "mset (listAffiliates afiliados) = mset afiliados"
    using listAffiliates_keeps by blast
  show "sorted (map surname_key (listAffiliates afiliados))"
    by (rule listAffiliates_sorted)
  fix k
  assume "k \<in> set (listAffiliates afiliados)"
  show "filter (\<lambda>x. surname_key k = surname_key x) (listAffiliates afiliados)
        = filter (\<lambda>x. surname_key k = surname_key x) afiliados"
    using listAffiliates_keeps [of afiliados]
    by (simp add: eq_commute [of "surname_key k"])
qed

lemma ex_listAffiliates:
  "listAffiliates ex_afiliados =
     [\<lparr>aff_id = ''2020'', aff_names = ''Luis'', aff_surnames = ''alvarez'',
       aff_birth = ''15/06/2010'', aff_plan = ''B'', aff_gender = ''Q'',
       aff_email = ''luis@eps.co''\<rparr>,
      \<lparr>aff_id = ''4040'', aff_names = ''Rita'', aff_surnames = ''Mora'',
       aff_birth = ''29/02/2000'', aff_plan = ''D'', aff_gender = ''X'',
       aff_email = ''rita@eps.co''\<rparr>,
      \<lparr>aff_id = ''1010'', aff_names = ''Ana'', aff_surnames = ''Zapata'',
       aff_birth = ''01/01/1990'', aff_plan = ''A'', aff_gender = ''F'',
       aff_email = ''ana@eps.co''\<rparr>,
      \<lparr>aff_id = ''3030'', aff_names = ''Eva'', aff_surnames = ''ZAPATA'',
       aff_birth = ''1985-12-24'', aff_plan = ''A'', aff_gender = ''M'',
       aff_email = ''eva@eps.co''\<rparr>]"
  by code_simp

text \<open>
  C5. The list \<^verbatim>\<open>listAffiliates\<close> returns holds the affiliates of the file, each as often
  as the file does; it is sorted in ascending order of the lowered surname; and the
  affiliates of one lowered surname stand in the order they have in the file. It is
  the list a stable insertion sort by the lowered surname returns.
\<close>

theorem listAffiliates_sorted_stable:
  "mset (listAffiliates afiliados) = mset afiliados
   \<and> sorted (map (\<lambda>af. lower (aff_surnames af)) (listAffiliates afiliados))
   \<and> (\<forall>v. filter (\<lambda>af. lower (aff_surnames af) = v) (listAffiliates afiliados)
           = filter (\<lambda>af. lower (aff_surnames af) = v) afiliados)
   \<and> listAffiliates afiliados = sort_key (\<lambda>af. lower (aff_surnames af)) afiliados"
proof -
  have k: "surname_key = (\<lambda>af. lower (aff_surnames af))"
    by (rule ext) (simp add: surname_key_def)
  show ?thesis
    using listAffiliates_keeps [of afiliados] listAffiliates_sorted [of afiliados]
      listAffiliates_sort_key [of afiliados]
    unfolding k by blast
qed

theorem listAffiliates_sorted_stable_witness:
  "mset (listAffiliates ex_afiliados) = mset ex_afiliados
   \<and> sorted (map (\<lambda>af. lower (aff_surnames af)) (listAffiliates ex_afiliados))
   \<and> map aff_id (filter (\<lambda>af. lower (aff_surnames af) = ''zapata'') (listAffiliates ex_afiliados))
       = [''1010'', ''3030'']
   \<and> map aff_id (listAffiliates ex_afiliados) = [''2020'', ''4040'', ''1010'', ''3030'']"
proof -
  note th = listAffiliates_sorted_stable [of ex_afiliados]
  have z: "map aff_id (filter (\<lambda>af. lower (aff_surnames af) = ''zapata'') ex_afiliados)
           = [''1010'', ''3030'']"
    by code_simp
  have 3: "map aff_id (filter (\<lambda>af. lower (aff_surnames af) = ''zapata'')
                        (listAffiliates ex_afiliados)) = [''1010'', ''3030'']"
    using th [THEN conjunct2, THEN conjunct2, THEN conjunct1, THEN spec, of "''zapata''"] z
    by simp
  have 4: "map aff_id (listAffiliates ex_afiliados) = [''2020'', ''4040'', ''1010'', ''3030'']"
    by (simp add: ex_listAffiliates)
  from th 3 4 show ?thesis by blast
qed

end
